theory Spec2Isabelle
  imports Main
begin

section \<open>Shared data: items, components, the timeout service\<close>

text \<open>
  Times and dates are milliseconds (\<open>Date.getTime()\<close>), uuids are strings. A JavaScript
  string is modelled as a \<open>string\<close> whose elements stand for its code units, so that
  \<open>length\<close> is \<open>.length\<close> and \<open>take n\<close> is \<open>.substring(0, n)\<close>.
  An optional or nullable field is an \<open>option\<close>; \<open>None\<close> is \<open>undefined\<close>/\<open>null\<close>.
\<close>

type_synonym uuid = string
type_synonym cref = nat

text \<open>The truthiness of an optional string: \<open>undefined\<close>, \<open>null\<close> and \<open>''\<close> are falsy.\<close>

definition truthy :: "string option \<Rightarrow> bool" where
  "truthy s = (case s of None \<Rightarrow> False | Some v \<Rightarrow> v \<noteq> [])"

text \<open>
  The fields of a note (\<open>SNNote\<close>) the editor reads, and the fields a \<open>NoteMutator\<close>
  writes: \<open>saveNote\<close> itself writes the title, the text and the two previews, the
  mutations its callers pass in flip one of the flags. \<open>text\<close> is a keyword of the theory
  language, hence \<open>note_text\<close>.
\<close>

record SNNote =
  uuid :: uuid
  deleted :: bool
  dirty :: bool
  title :: "string option"
  note_text :: "string option"
  preview_plain :: "string option"
  preview_html :: "string option"
  trashed :: bool
  pinned :: bool
  locked :: bool
  archived :: bool
  hidePreview :: bool
  lastSyncBegan :: "int option"
  lastSyncEnd :: "int option"

text \<open>
  A component object (\<open>SNComponent\<close>) as the two controllers read it. Its methods
  \<open>hasValidHostedUrl()\<close>, \<open>isExplicitlyEnabledForItem(note)\<close>, \<open>isDefaultEditor()\<close> and
  \<open>isEditor()\<close> belong to the item library; they are fields holding what the method
  returns. Controllers hold components by reference (\<open>cref\<close>) and compare them with
  \<open>===\<close>; the objects behind the references are an environment \<open>cref \<Rightarrow> SNComponent\<close>.
\<close>

record SNComponent =
  area :: string
  active :: bool
  offlineOnly :: bool
  local_url :: "string option"
  hasValidHostedUrl :: bool
  valid_until :: "int option"
  isExplicitlyEnabledForItem :: "SNNote \<Rightarrow> bool"
  isDefaultEditor :: bool
  isEditor :: bool

text \<open>
  The \<open>$timeout\<close> service: \<open>$timeout(fn, delay)\<close> queues a callback and returns a handle,
  \<open>$timeout.cancel(handle)\<close> removes a queued callback and does nothing for a handle that
  is no longer queued. Handles are never reused. A queued callback runs when the event
  loop reaches its timer at or after the time it is due.
\<close>

datatype 'cb timer = Timer (tid: nat) (due: int) (callback: 'cb)

record 'cb timeoutService =
  nextId :: nat
  pending :: "'cb timer list"

definition timeout :: "int \<Rightarrow> 'cb \<Rightarrow> 'cb timeoutService \<Rightarrow> nat \<times> 'cb timeoutService" where
  "timeout d cb ts =
     (nextId ts,
      ts\<lparr>nextId := Suc (nextId ts), pending := pending ts @ [Timer (nextId ts) d cb]\<rparr>)"

definition timeout_cancel :: "nat \<Rightarrow> 'cb timeoutService \<Rightarrow> 'cb timeoutService" where
  "timeout_cancel h ts = ts\<lparr>pending := filter (\<lambda>t. tid t \<noteq> h) (pending ts)\<rparr>"

text \<open>\<open>if (handle) { $timeout.cancel(handle) }\<close>\<close>

definition cancel_if_set :: "nat option \<Rightarrow> 'cb timeoutService \<Rightarrow> 'cb timeoutService" where
  "cancel_if_set h ts = (case h of None \<Rightarrow> ts | Some i \<Rightarrow> timeout_cancel i ts)"

text \<open>The timer with handle \<open>h\<close>, when it is queued and due at time \<open>t\<close>.\<close>

definition due_timer :: "int \<Rightarrow> nat \<Rightarrow> 'cb timeoutService \<Rightarrow> 'cb timer option" where
  "due_timer t h ts = find (\<lambda>x. tid x = h \<and> due x \<le> t) (pending ts)"

datatype error = TypeError

section \<open>The editor panel (EditorCtrl)\<close>

definition NOTE_PREVIEW_CHAR_LIMIT :: nat where
  "NOTE_PREVIEW_CHAR_LIMIT = 80"

definition MINIMUM_STATUS_DURATION :: int where
  "MINIMUM_STATUS_DURATION = 400"

definition SAVE_TIMEOUT_DEBOUNCE :: int where
  "SAVE_TIMEOUT_DEBOUNCE = 350"

definition SAVE_TIMEOUT_NO_DEBOUNCE :: int where
  "SAVE_TIMEOUT_NO_DEBOUNCE = 100"

record NoteStatus =
  message :: "string option"
  desc :: "string option"
  date :: "int option"

text \<open>The two closures the editor hands to \<open>$timeout\<close>.\<close>

datatype ed_callback = SyncCb | StatusCb NoteStatus

text \<open>Calls the editor makes on its collaborators, in the order it makes them.\<close>

datatype ComponentArea = NoteTags | EditorStack | Editor

datatype alert_text = STRING_DELETED_NOTE | STRING_INVALID_NOTE

datatype ed_effect =
    LocationReload
  | Alert alert_text
  | ChangeItem uuid bool
  | Sync
  | SetComponentHidden cref bool
  | ContextItemDidChangeInArea ComponentArea
  | RemoveKeyObserver string
  | UnregisterComponent
  | Thrown error

text \<open>
  The controller's fields and \<open>state\<close>, together with the parts of its surroundings it
  acts on: the item store (\<open>items\<close>, what \<open>findItem\<close> and \<open>changeItem\<close> work on) and the
  queue of the \<open>$timeout\<close> service (\<open>ed_timers\<close>). The field \<open>state_note\<close> is
  \<open>state.note\<close> (\<open>note\<close> is a keyword here). An observer or handler field holds whether
  the function is there. \<open>setState\<close> of the base controller, which is not part of these
  sources, is taken as writing the given fields into the state.
\<close>

record EditorCtrl =
  state_note :: "SNNote option"
  saveError :: bool
  syncTakingTooLong :: bool
  selectedEditor :: "cref option"
  tagsComponent :: "cref option"
  componentStack :: "cref list"
  noteStatus :: "NoteStatus option"
  editorValues_title :: "string option"
  editorValues_text :: "string option"
  saveTimeout :: "nat option"
  statusTimeout :: "nat option"
  removeAltKeyObserver :: bool
  removeTrashKeyObserver :: bool
  removeDeleteKeyObserver :: bool
  removeTabObserver :: bool
  unregisterComponent :: bool
  items :: "uuid \<rightharpoonup> SNNote"
  ed_timers :: "ed_callback timeoutService"

text \<open>
  What a handler reads from outside the controller: the clock, \<open>document.hidden\<close>,
  \<open>application.noAccount()\<close>, the constant \<open>STRING_ELLIPSES\<close> of the strings module, the
  component objects, and the component manager's stack components in the order
  \<open>reloadComponentStackArray\<close> sorts them.
\<close>

record ed_env =
  ed_now :: int
  documentHidden :: bool
  noAccount :: bool
  STRING_ELLIPSES :: string
  comps :: "cref \<Rightarrow> SNComponent"
  stackComponents :: "cref list"

text \<open>
  \<open>setStatus(status, wait = true)\<close>: the status is shown by a timer, after the time left
  of the minimum duration of the status on display, or at once when \<open>wait\<close> is false.
\<close>

definition setStatus :: "ed_env \<Rightarrow> NoteStatus \<Rightarrow> bool \<Rightarrow> EditorCtrl \<Rightarrow> EditorCtrl" where
  "setStatus env status wait st =
     (let waitForMs0 =
            (case noteStatus st of
               None \<Rightarrow> 0
             | Some cur \<Rightarrow>
                 (case date cur of
                    None \<Rightarrow> 0
                  | Some d \<Rightarrow> MINIMUM_STATUS_DURATION - (ed_now env - d)));
          waitForMs = (if \<not> wait \<or> waitForMs0 < 0 then 0 else waitForMs0);
          ts = cancel_if_set (statusTimeout st) (ed_timers st);
          (h, ts') = timeout (ed_now env + waitForMs) (StatusCb status) ts
      in st\<lparr>statusTimeout := Some h, ed_timers := ts'\<rparr>)"

definition showSavingStatus :: "ed_env \<Rightarrow> EditorCtrl \<Rightarrow> EditorCtrl" where
  "showSavingStatus env st =
     setStatus env \<lparr>message = Some ''Saving...'', desc = None, date = None\<rparr> False st"

definition showAllChangesSavedStatus :: "ed_env \<Rightarrow> EditorCtrl \<Rightarrow> EditorCtrl" where
  "showAllChangesSavedStatus env st =
     setStatus env \<lparr>message = Some ''All changes saved'', desc = None, date = None\<rparr> True
       (st\<lparr>saveError := False, syncTakingTooLong := False\<rparr>)"

definition showErrorStatus :: "ed_env \<Rightarrow> NoteStatus option \<Rightarrow> EditorCtrl \<Rightarrow> EditorCtrl" where
  "showErrorStatus env err st =
     (let e = (case err of
                 None \<Rightarrow> \<lparr>message = Some ''Sync Unreachable'',
                           desc = Some ''Changes saved offline'', date = None\<rparr>
               | Some x \<Rightarrow> x)
      in setStatus env e True (st\<lparr>saveError := True, syncTakingTooLong := False\<rparr>))"

text \<open>
  The mutation \<open>saveNote\<close> passes to \<open>changeItem\<close>. \<open>note\<close> is the note captured from the
  controller's state before the call; the mutator \<open>m\<close> is the stored item being rewritten.
\<close>

definition saveNote_mutate ::
  "ed_env \<Rightarrow> EditorCtrl \<Rightarrow> SNNote \<Rightarrow> bool \<Rightarrow> (SNNote \<Rightarrow> SNNote) option \<Rightarrow> SNNote \<Rightarrow> SNNote" where
  "saveNote_mutate env st n dontUpdatePreviews customMutate m =
     (let m1 = (case customMutate of None \<Rightarrow> m | Some f \<Rightarrow> f m);
          m2 = m1\<lparr>title := editorValues_title st, note_text := editorValues_text st\<rparr>
      in if \<not> dontUpdatePreviews then
           (let text = (case note_text n of None \<Rightarrow> [] | Some t \<Rightarrow> t);
                truncate = (length text > NOTE_PREVIEW_CHAR_LIMIT);
                substring = take NOTE_PREVIEW_CHAR_LIMIT text;
                previewPlain = substring @ (if truncate then STRING_ELLIPSES env else [])
            in m2\<lparr>preview_plain := Some previewPlain, preview_html := None\<rparr>)
         else m2)"

text \<open>\<open>application.changeItem(uuid, mutate)\<close>: the stored item with that uuid is rewritten.\<close>

definition changeItem :: "uuid \<Rightarrow> (SNNote \<Rightarrow> SNNote) \<Rightarrow> (uuid \<rightharpoonup> SNNote) \<Rightarrow> (uuid \<rightharpoonup> SNNote)" where
  "changeItem u f store = (case store u of None \<Rightarrow> store | Some m \<Rightarrow> store(u \<mapsto> f m))"

definition performFirefoxPinnedTabFix :: "ed_env \<Rightarrow> ed_effect list" where
  "performFirefoxPinnedTabFix env = (if documentHidden env then [LocationReload] else [])"

text \<open>
  \<open>saveNote(bypassDebouncer, isUserModified, dontUpdatePreviews, customMutate)\<close>. The
  result is what the call raised (reading \<open>note.deleted\<close> with no note in the state), the
  state it left and the calls it made.
\<close>

definition saveNote ::
  "ed_env \<Rightarrow> bool \<Rightarrow> bool \<Rightarrow> bool \<Rightarrow> (SNNote \<Rightarrow> SNNote) option \<Rightarrow> EditorCtrl
   \<Rightarrow> error option \<times> EditorCtrl \<times> ed_effect list" where
  "saveNote env bypassDebouncer isUserModified dontUpdatePreviews customMutate st =
     (let fx = performFirefoxPinnedTabFix env in
      case state_note st of
        None \<Rightarrow> (Some TypeError, st, fx)
      | Some n \<Rightarrow>
          if deleted n then (None, st, fx @ [Alert STRING_DELETED_NOTE])
          else if items st (uuid n) = None then (None, st, fx @ [Alert STRING_INVALID_NOTE])
          else
            (let st1 = showSavingStatus env st;
                 st2 = st1\<lparr>items :=
                          changeItem (uuid n)
                            (saveNote_mutate env st1 n dontUpdatePreviews customMutate)
                            (items st1)\<rparr>;
                 ts = cancel_if_set (saveTimeout st2) (ed_timers st2);
                 noDebounce = (bypassDebouncer \<or> noAccount env);
                 syncDebouceMs =
                   (if noDebounce then SAVE_TIMEOUT_NO_DEBOUNCE else SAVE_TIMEOUT_DEBOUNCE);
                 (h, ts') = timeout (ed_now env + syncDebouceMs) SyncCb ts
             in (None, st2\<lparr>saveTimeout := Some h, ed_timers := ts'\<rparr>,
                 fx @ [ChangeItem (uuid n) isUserModified])))"

text \<open>A queued callback of the editor runs: the debounced sync, or the status display.\<close>

definition ed_run_callback :: "ed_env \<Rightarrow> ed_callback \<Rightarrow> EditorCtrl \<Rightarrow> EditorCtrl \<times> ed_effect list" where
  "ed_run_callback env cb st =
     (case cb of
        SyncCb \<Rightarrow> (st, [Sync])
      | StatusCb status \<Rightarrow> (st\<lparr>noteStatus := Some (status\<lparr>date := Some (ed_now env)\<rparr>)\<rparr>, []))"

text \<open>
  The event loop reaches timer \<open>h\<close> at time \<open>ed_now env\<close>: when the timer is queued and
  due it leaves the queue and its callback runs; otherwise nothing happens.
\<close>

definition ed_fire :: "ed_env \<Rightarrow> nat \<Rightarrow> EditorCtrl \<Rightarrow> EditorCtrl \<times> ed_effect list" where
  "ed_fire env h st =
     (case due_timer (ed_now env) h (ed_timers st) of
        None \<Rightarrow> (st, [])
      | Some t \<Rightarrow>
          ed_run_callback env (callback t) (st\<lparr>ed_timers := timeout_cancel h (ed_timers st)\<rparr>))"

text \<open>\<open>onAppEvent\<close>: sync events of the application drive the status line.\<close>

datatype ApplicationEvent =
  HighLatencySync | CompletedSync | FailedSync | LocalDatabaseWriteError | OtherApplicationEvent

definition onAppEvent :: "ed_env \<Rightarrow> ApplicationEvent \<Rightarrow> EditorCtrl \<Rightarrow> EditorCtrl" where
  "onAppEvent env eventName st =
     (case state_note st of
        None \<Rightarrow> st
      | Some n \<Rightarrow>
          (case eventName of
             HighLatencySync \<Rightarrow> st\<lparr>syncTakingTooLong := True\<rparr>
           | CompletedSync \<Rightarrow>
               (let st1 = st\<lparr>syncTakingTooLong := False\<rparr> in
                if dirty n then st1
                else
                  (let saved =
                         (case lastSyncEnd n of
                            None \<Rightarrow> False
                          | Some e \<Rightarrow>
                              (case lastSyncBegan n of None \<Rightarrow> False | Some b \<Rightarrow> e > b));
                       isInErrorState = saveError st1
                   in if isInErrorState \<or> saved then showAllChangesSavedStatus env st1
                      else st1))
           | FailedSync \<Rightarrow> (if dirty n then showErrorStatus env None st else st)
           | LocalDatabaseWriteError \<Rightarrow>
               showErrorStatus env
                 (Some \<lparr>message = Some ''Offline Saving Issue'',
                        desc = Some ''Changes not saved'', date = None\<rparr>) st
           | OtherApplicationEvent \<Rightarrow> st))"

definition reloadComponentStackArray :: "ed_env \<Rightarrow> EditorCtrl \<Rightarrow> EditorCtrl" where
  "reloadComponentStackArray env st = st\<lparr>componentStack := stackComponents env\<rparr>"

definition reloadComponentContext :: "ed_env \<Rightarrow> EditorCtrl \<Rightarrow> EditorCtrl \<times> ed_effect list" where
  "reloadComponentContext env st =
     (let st1 = reloadComponentStackArray env st;
          hidden =
            (case state_note st1 of
               None \<Rightarrow> []
             | Some n \<Rightarrow>
                 concat (map (\<lambda>c. if active (comps env c)
                                  then [SetComponentHidden c
                                          (\<not> isExplicitlyEnabledForItem (comps env c) n)]
                                  else [])
                             (componentStack st1)))
      in (st1, hidden @ [ContextItemDidChangeInArea NoteTags,
                         ContextItemDidChangeInArea EditorStack,
                         ContextItemDidChangeInArea Editor]))"

text \<open>
  The handlers the editor registers with the component manager. \<open>component === x\<close> on
  a state field \<open>x\<close> is equality of references; an unset field equals no component.
\<close>

definition activationHandler :: "ed_env \<Rightarrow> cref \<Rightarrow> EditorCtrl \<Rightarrow> EditorCtrl \<times> ed_effect list" where
  "activationHandler env c st =
     (let component = comps env c in
      if area component = ''note-tags'' then
        (st\<lparr>tagsComponent := (if active component then Some c else None)\<rparr>, [])
      else if area component = ''editor-editor'' then
        (if selectedEditor st = Some c \<and> \<not> active component then
           (st\<lparr>selectedEditor := None\<rparr>, [])
         else
           (case selectedEditor st of
              Some se \<Rightarrow>
                (case state_note st of
                   None \<Rightarrow> (st, [])
                 | Some n \<Rightarrow>
                     if active (comps env se) then
                       (if isExplicitlyEnabledForItem component n
                           \<and> \<not> isExplicitlyEnabledForItem (comps env se) n
                        then (st\<lparr>selectedEditor := Some c\<rparr>, [])
                        else (st, []))
                     else (st, []))
            | None \<Rightarrow>
                (case state_note st of
                   None \<Rightarrow> (st, [])
                 | Some n \<Rightarrow>
                     (let enableable =
                            (isExplicitlyEnabledForItem component n \<or> isDefaultEditor component)
                      in if active component \<and> enableable
                         then (st\<lparr>selectedEditor := Some c\<rparr>, [])
                         else (st\<lparr>selectedEditor := None\<rparr>, [])))))
      else if area component = ''editor-stack'' then reloadComponentContext env st
      else (st, []))"

definition contextRequestHandler :: "cref \<Rightarrow> EditorCtrl \<Rightarrow> SNNote option" where
  "contextRequestHandler c st =
     (if selectedEditor st = Some c \<or> tagsComponent st = Some c \<or> c \<in> set (componentStack st)
      then state_note st
      else None)"

text \<open>
  \<open>deinit\<close>, up to its last statement \<open>super.deinit()\<close>, which runs the base controller's
  teardown outside these sources. Calling an observer remover that is not there raises.
  The two timer fields are set to \<open>undefined\<close>; \<open>$timeout.cancel\<close> is not called.
\<close>

definition deinit :: "EditorCtrl \<Rightarrow> error option \<times> EditorCtrl \<times> ed_effect list" where
  "deinit st =
     (if \<not> removeAltKeyObserver st then (Some TypeError, st, [])
      else
        (let st1 = st\<lparr>removeAltKeyObserver := False\<rparr>; fx1 = [RemoveKeyObserver ''alt''] in
         if \<not> removeTrashKeyObserver st1 then (Some TypeError, st1, fx1)
         else
           (let st2 = st1\<lparr>removeTrashKeyObserver := False\<rparr>;
                fx2 = fx1 @ [RemoveKeyObserver ''trash''] in
            if \<not> removeDeleteKeyObserver st2 then (Some TypeError, st2, fx2)
            else
              (let st3 = st2\<lparr>removeDeleteKeyObserver := False\<rparr>;
                   fx3 = fx2 @ [RemoveKeyObserver ''delete''];
                   fx4 = fx3 @ (if removeTabObserver st3 then [RemoveKeyObserver ''tab''] else []);
                   st4 = st3\<lparr>removeTabObserver := False\<rparr> in
               if \<not> unregisterComponent st4 then (Some TypeError, st4, fx4)
               else
                 (None,
                  st4\<lparr>unregisterComponent := False, saveTimeout := None, statusTimeout := None\<rparr>,
                  fx4 @ [UnregisterComponent])))))"

text \<open>
  What happens to a live editor, as far as its status line, its save timer and its
  component handlers go: a call of \<open>saveNote\<close> (by \<open>contentChanged\<close>, \<open>onTitleChange\<close>, the
  pin, lock, archive and trash actions), a component's save (\<open>showSavingStatus\<close>), an
  application event, a component's activation, and a timer of the queue running. No
  other method of the controller reads or writes \<open>saveTimeout\<close> or \<open>statusTimeout\<close>.
\<close>

datatype ed_event =
    SaveNote bool bool bool "(SNNote \<Rightarrow> SNNote) option"
  | ShowSavingStatus
  | AppEvent ApplicationEvent
  | ComponentActivated cref
  | EdTimerFires nat

definition ed_step :: "ed_env \<Rightarrow> ed_event \<Rightarrow> EditorCtrl \<Rightarrow> EditorCtrl \<times> ed_effect list" where
  "ed_step env ev st =
     (case ev of
        SaveNote bypassDebouncer isUserModified dontUpdatePreviews customMutate \<Rightarrow>
          (case saveNote env bypassDebouncer isUserModified dontUpdatePreviews customMutate st of
             (None, st1, fx) \<Rightarrow> (st1, fx)
           | (Some e, st1, fx) \<Rightarrow> (st1, fx @ [Thrown e]))
      | ShowSavingStatus \<Rightarrow> (showSavingStatus env st, [])
      | AppEvent a \<Rightarrow> (onAppEvent env a st, [])
      | ComponentActivated c \<Rightarrow> activationHandler env c st
      | EdTimerFires h \<Rightarrow> ed_fire env h st)"

fun ed_run :: "(ed_env \<times> ed_event) list \<Rightarrow> EditorCtrl \<Rightarrow> EditorCtrl \<times> ed_effect list" where
  "ed_run [] st = (st, [])"
| "ed_run ((env, ev) # evs) st =
     (case ed_step env ev st of
        (st1, fx1) \<Rightarrow> (case ed_run evs st1 of (st2, fx2) \<Rightarrow> (st2, fx1 @ fx2)))"

text \<open>The queued sync timers, and the delay \<open>saveNote\<close> gives a sync.\<close>

definition pending_syncs :: "EditorCtrl \<Rightarrow> ed_callback timer list" where
  "pending_syncs st = filter (\<lambda>t. callback t = SyncCb) (pending (ed_timers st))"

definition syncDebounce :: "ed_env \<Rightarrow> bool \<Rightarrow> int" where
  "syncDebounce env bypassDebouncer =
     (if bypassDebouncer \<or> noAccount env then SAVE_TIMEOUT_NO_DEBOUNCE
      else SAVE_TIMEOUT_DEBOUNCE)"

text \<open>
  What holds of the timer queue of a live editor: handles in the queue were all given
  out already and are distinct, and a queued sync timer is the one \<open>saveTimeout\<close> names.
\<close>

definition queue_ok :: "EditorCtrl \<Rightarrow> bool" where
  "queue_ok st =
     (list_all (\<lambda>t. tid t < nextId (ed_timers st)) (pending (ed_timers st))
      \<and> distinct (map tid (pending (ed_timers st)))
      \<and> list_all (\<lambda>t. saveTimeout st = Some (tid t)) (pending_syncs st))"

text \<open>A \<open>saveNote\<close> call that passes both guards: the note is not deleted and is in the store.\<close>

definition passes_guards :: "EditorCtrl \<Rightarrow> bool" where
  "passes_guards st =
     (case state_note st of
        None \<Rightarrow> False
      | Some n \<Rightarrow> \<not> deleted n \<and> items st (uuid n) \<noteq> None)"

text \<open>
  The debounce window. While a sync timer due at \<open>dl\<close> is queued, an event is within
  the window when it happens before \<open>dl\<close>; a \<open>saveNote\<close> call moves the end of the window
  to its own time plus its delay, any other event leaves it where it is. \<open>in_window\<close>
  says that every event of a run happens within the window as it stands when the event
  comes, \<open>window_end\<close> is where the window ends after the run.
\<close>

definition next_due :: "ed_env \<Rightarrow> ed_event \<Rightarrow> int \<Rightarrow> int" where
  "next_due env ev dl =
     (case ev of
        SaveNote b u d cm \<Rightarrow> ed_now env + syncDebounce env b
      | _ \<Rightarrow> dl)"

fun in_window :: "int \<Rightarrow> (ed_env \<times> ed_event) list \<Rightarrow> bool" where
  "in_window dl [] = True"
| "in_window dl ((env, ev) # evs) = (ed_now env < dl \<and> in_window (next_due env ev dl) evs)"

fun window_end :: "int \<Rightarrow> (ed_env \<times> ed_event) list \<Rightarrow> int" where
  "window_end dl [] = dl"
| "window_end dl ((env, ev) # evs) = window_end (next_due env ev dl) evs"

text \<open>
  The state of an editor inside a window: its queue is in order, its note passes the
  guards, and the one queued sync timer, due at \<open>dl\<close>, is not the timer \<open>statusTimeout\<close>
  names.
\<close>

definition windowed :: "EditorCtrl \<Rightarrow> nat \<Rightarrow> int \<Rightarrow> bool" where
  "windowed st h dl =
     (queue_ok st \<and> passes_guards st \<and> statusTimeout st \<noteq> Some h
      \<and> pending_syncs st = [Timer h dl SyncCb])"

section \<open>The component view (ComponentViewCtrl)\<close>

definition MAX_LOAD_THRESHOLD :: int where
  "MAX_LOAD_THRESHOLD = 4000"

text \<open>
  The \<open>application\<close> binding, as far as the controller reads it: whether its
  \<open>componentManager\<close> is there. Reading a property of a missing application or manager
  raises a \<open>TypeError\<close>.
\<close>

datatype application = Application (componentManager: bool)

text \<open>
  An iframe, as \<open>handleIframeLoad\<close> reads it: what reading \<open>contentWindow.origin\<close> gives,
  or that the read throws.
\<close>

datatype origin_read = OriginThrows | Origin "string option"

datatype iframe = Iframe (contentWindow_origin: origin_read)

text \<open>The closures the controller hands to \<open>$timeout\<close>.\<close>

datatype cv_callback =
    HandleActivationCb
  | HandleIframeLoadTimeoutCb
  | LoadedCb bool
  | ReloadingDoneCb

text \<open>
  What is left to run after a promise the controller waits for: \<open>reloadStatus()\<close> after
  \<open>registerComponent(...).then\<close> and after \<open>await reloadComponent(...)\<close>; the settle timer
  after \<open>await registerComponentWindow(...)\<close>, with the \<open>desktopError\<close> it has computed.
\<close>

datatype cv_continuation =
    AfterRegisterComponent
  | AfterReloadComponent
  | AfterRegisterComponentWindow bool

datatype cv_effect =
    CleanUpOn
  | UnregisterComponentHandler
  | UnregisterDesktopObserver
  | RegisterHandler string
  | RegisterUpdateObserver
  | RegisterComponent cref
  | DeregisterComponent cref
  | ReloadComponent "cref option" bool
  | SetReadonlyStateForComponent cref bool
  | Broadcast string
  | RegisterComponentWindow "cref option"
  | OnLoad "cref option"
  | HandleSetSizeEvent cref
  | Raised error
  | Rejected error

text \<open>
  The controller's fields, then the parts of its surroundings it acts on: the timer queue
  (\<open>cv_timers\<close>), whether \<open>document\<close> holds the controller's \<open>visibilitychange\<close> listener
  (\<open>visibilityListener\<close>), whether an iframe's \<open>onload\<close> is bound to the controller
  (\<open>iframe_onload\<close>), and the promises it is waiting for (\<open>awaiting\<close>). A field that holds
  a function (\<open>cleanUpOn\<close>, \<open>onVisibilityChange\<close>, \<open>onLoad\<close>, the two unregister
  functions) is true when the function is there; the field \<open>onVisibilityChange\<close> is
  \<open>onVisibilityChange_bound\<close> here, the method keeps the name. A boolean field that
  starts \<open>undefined\<close> starts false.
\<close>

record ComponentViewCtrl =
  componentValid :: bool
  cleanUpOn :: bool
  onVisibilityChange_bound :: bool
  unregisterComponentHandler :: bool
  unregisterDesktopObserver :: bool
  component :: "cref option"
  onLoad :: bool
  manualDealloc :: bool
  application :: "application option"
  didRegisterObservers :: bool
  lastComponentValue :: "cref option"
  reloading :: bool
  expired :: bool
  loading :: bool
  issueLoading :: bool
  error :: "string option"
  loadTimeout :: "nat option"
  didAttemptReload :: bool
  cv_timers :: "cv_callback timeoutService"
  visibilityListener :: bool
  iframe_onload :: bool
  awaiting :: "cv_continuation list"

text \<open>
  What a handler reads from outside the controller: the clock, \<open>isDesktopApplication()\<close>,
  whether \<open>document.visibilityState\<close> is \<open>'hidden'\<close>, the component objects, and from the
  component manager the iframe of a component and the \<open>lockReadonly\<close> flag of its
  readonly state.
\<close>

record cv_env =
  cv_now :: int
  isDesktopApplication :: bool
  visibilityHidden :: bool
  cv_comps :: "cref \<Rightarrow> SNComponent"
  iframeForComponent :: "cref \<Rightarrow> iframe option"
  lockReadonly :: "cref \<Rightarrow> bool"

text \<open>The constructor; the four bindings of the directive are its arguments.\<close>

definition new_ComponentViewCtrl ::
  "cref option \<Rightarrow> bool \<Rightarrow> bool \<Rightarrow> application option \<Rightarrow> ComponentViewCtrl" where
  "new_ComponentViewCtrl c ol md app =
     \<lparr>componentValid = True, cleanUpOn = True, onVisibilityChange_bound = True,
      unregisterComponentHandler = False, unregisterDesktopObserver = False,
      component = c, onLoad = ol, manualDealloc = md, application = app,
      didRegisterObservers = False, lastComponentValue = None, reloading = False,
      expired = False, loading = False, issueLoading = False, error = None,
      loadTimeout = None, didAttemptReload = False,
      cv_timers = \<lparr>nextId = 0, pending = []\<rparr>,
      visibilityListener = False, iframe_onload = False, awaiting = []\<rparr>"

text \<open>\<open>this.application.componentManager\<close> can be read and used.\<close>

definition manager :: "ComponentViewCtrl \<Rightarrow> bool" where
  "manager st = (case application st of None \<Rightarrow> False | Some a \<Rightarrow> componentManager a)"

text \<open>
  A synchronous method returns what it raised (if anything), the state it left and the
  calls it made. An \<open>async\<close> method never raises to its caller: an exception in it is a
  rejected promise, recorded among the calls.
\<close>

definition reloadStatus ::
  "cv_env \<Rightarrow> bool \<Rightarrow> ComponentViewCtrl \<Rightarrow> error option \<times> ComponentViewCtrl \<times> cv_effect list" where
  "reloadStatus env doManualReload st =
     (let st1 = st\<lparr>reloading := True\<rparr> in
      case component st1 of
        None \<Rightarrow> (Some TypeError, st1, [])
      | Some c \<Rightarrow>
          (let comp = cv_comps env c;
               previouslyValid = componentValid st1;
               offlineRestricted = (offlineOnly comp \<and> \<not> isDesktopApplication env);
               hasUrlError =
                 (if isDesktopApplication env
                  then \<not> truthy (local_url comp) \<and> \<not> hasValidHostedUrl comp
                  else \<not> hasValidHostedUrl comp);
               st2 = st1\<lparr>expired :=
                        (case valid_until comp of None \<Rightarrow> False | Some d \<Rightarrow> d \<le> cv_now env)\<rparr>
           in if \<not> manager st2 then (Some TypeError, st2, [])
              else
                (let fx1 = (if \<not> lockReadonly env c
                            then [SetReadonlyStateForComponent c True] else []);
                     st3 = st2\<lparr>componentValid := \<not> offlineRestricted \<and> \<not> hasUrlError\<rparr>;
                     st4 = (if \<not> componentValid st3 then st3\<lparr>loading := False\<rparr> else st3);
                     st5 = st4\<lparr>error :=
                              (if offlineRestricted then Some ''offline-restricted''
                               else if hasUrlError then Some ''url-missing''
                               else None)\<rparr>;
                     fx2 = (if componentValid st5 \<noteq> previouslyValid \<and> componentValid st5
                            then [ReloadComponent (Some c) True] else []);
                     fx3 = (if expired st5 \<and> doManualReload
                            then [Broadcast ''reload-ext-dat''] else []);
                     (h, ts) = timeout (cv_now env + 500) ReloadingDoneCb (cv_timers st5)
                 in (None, st5\<lparr>cv_timers := ts\<rparr>, fx1 @ fx2 @ fx3))))"

definition reloadComponent :: "ComponentViewCtrl \<Rightarrow> ComponentViewCtrl \<times> cv_effect list" where
  "reloadComponent st =
     (let st1 = st\<lparr>componentValid := False\<rparr> in
      if \<not> manager st1 then (st1, [Rejected TypeError])
      else (st1\<lparr>awaiting := awaiting st1 @ [AfterReloadComponent]\<rparr>,
            [ReloadComponent (component st1) False]))"

definition onVisibilityChange ::
  "cv_env \<Rightarrow> ComponentViewCtrl \<Rightarrow> ComponentViewCtrl \<times> cv_effect list" where
  "onVisibilityChange env st =
     (if visibilityHidden env then (st, [])
      else if issueLoading st then reloadComponent st
      else (st, []))"

definition handleActivation ::
  "cv_env \<Rightarrow> ComponentViewCtrl \<Rightarrow> error option \<times> ComponentViewCtrl \<times> cv_effect list" where
  "handleActivation env st =
     (case component st of
        None \<Rightarrow> (None, st, [])
      | Some c \<Rightarrow>
          if \<not> active (cv_comps env c) then (None, st, [])
          else if \<not> manager st then (Some TypeError, st, [])
          else
            (case iframeForComponent env c of
               None \<Rightarrow> (None, st, [])
             | Some iframe \<Rightarrow>
                 (let st1 = st\<lparr>loading := True\<rparr>;
                      ts = cancel_if_set (loadTimeout st1) (cv_timers st1);
                      (h, ts') = timeout (cv_now env + MAX_LOAD_THRESHOLD)
                                   HandleIframeLoadTimeoutCb ts
                  in (None,
                      st1\<lparr>loadTimeout := Some h, cv_timers := ts', iframe_onload := True\<rparr>,
                      []))))"

text \<open>
  \<open>document.addEventListener(key, this.onVisibilityChange)\<close>: adding a listener that is
  registered already, or \<open>null\<close>, changes nothing.
\<close>

definition handleIframeLoadTimeout :: "ComponentViewCtrl \<Rightarrow> ComponentViewCtrl \<times> cv_effect list" where
  "handleIframeLoadTimeout st =
     (if loading st then
        (let st1 = st\<lparr>loading := False, issueLoading := True\<rparr> in
         if \<not> didAttemptReload st1 then reloadComponent (st1\<lparr>didAttemptReload := True\<rparr>)
         else (st1\<lparr>visibilityListener :=
                     (visibilityListener st1 \<or> onVisibilityChange_bound st1)\<rparr>, []))
      else (st, []))"

definition handleIframeLoad ::
  "cv_env \<Rightarrow> iframe \<Rightarrow> ComponentViewCtrl \<Rightarrow> ComponentViewCtrl \<times> cv_effect list" where
  "handleIframeLoad env iframe st =
     (let desktopError =
            (isDesktopApplication env \<and>
             (case contentWindow_origin iframe of
                OriginThrows \<Rightarrow> False
              | Origin orig \<Rightarrow> \<not> truthy orig \<or> orig = Some ''null''));
          st1 = st\<lparr>cv_timers := cancel_if_set (loadTimeout st) (cv_timers st)\<rparr>
      in if \<not> manager st1 then (st1, [Rejected TypeError])
         else (st1\<lparr>awaiting := awaiting st1 @ [AfterRegisterComponentWindow desktopError]\<rparr>,
               [RegisterComponentWindow (component st1)]))"

text \<open>The rest of \<open>handleIframeLoad\<close>: the settle timer of 7ms and what it runs.\<close>

definition handleIframeLoad_resume ::
  "cv_env \<Rightarrow> bool \<Rightarrow> ComponentViewCtrl \<Rightarrow> ComponentViewCtrl" where
  "handleIframeLoad_resume env desktopError st =
     (let avoidFlickerTimeout = 7;
          (h, ts) = timeout (cv_now env + avoidFlickerTimeout) (LoadedCb desktopError) (cv_timers st)
      in st\<lparr>cv_timers := ts\<rparr>)"

definition handleIframeLoad_settled ::
  "bool \<Rightarrow> ComponentViewCtrl \<Rightarrow> ComponentViewCtrl \<times> cv_effect list" where
  "handleIframeLoad_settled desktopError st =
     (let st1 = st\<lparr>loading := False, issueLoading := (if desktopError then True else False)\<rparr>
      in (st1, if onLoad st1 then [OnLoad (component st1)] else []))"

text \<open>
  \<open>$onDestroy\<close>. Calling \<open>cleanUpOn\<close> or an unregister function that is not there raises.
  The load timer is not touched.
\<close>

definition onDestroy :: "ComponentViewCtrl \<Rightarrow> error option \<times> ComponentViewCtrl \<times> cv_effect list" where
  "onDestroy st =
     (if \<not> cleanUpOn st then (Some TypeError, st, [])
      else
        (let st1 = st\<lparr>cleanUpOn := False\<rparr>; fx1 = [CleanUpOn] in
         if \<not> unregisterComponentHandler st1 then (Some TypeError, st1, fx1)
         else
           (let st2 = st1\<lparr>unregisterComponentHandler := False\<rparr>;
                fx2 = fx1 @ [UnregisterComponentHandler];
                fx3 = fx2 @
                  (case component st2 of
                     None \<Rightarrow> []
                   | Some c \<Rightarrow>
                       if \<not> manualDealloc st2 \<and> manager st2 then [DeregisterComponent c]
                       else [])
            in if \<not> unregisterDesktopObserver st2 then (Some TypeError, st2, fx3)
               else
                 (None,
                  st2\<lparr>unregisterDesktopObserver := False, visibilityListener := False,
                      component := None, onLoad := False, application := None,
                      onVisibilityChange_bound := False\<rparr>,
                  fx3 @ [UnregisterDesktopObserver]))))"

definition registerComponentHandlers ::
  "cv_env \<Rightarrow> ComponentViewCtrl \<Rightarrow> error option \<times> ComponentViewCtrl \<times> cv_effect list" where
  "registerComponentHandlers env st =
     (if \<not> manager st then (Some TypeError, st, [])
      else
        (case component st of
           None \<Rightarrow> (Some TypeError, st, [])
         | Some c \<Rightarrow>
             (None, st\<lparr>unregisterComponentHandler := True\<rparr>,
              [RegisterHandler (area (cv_comps env c))])))"

definition registerPackageUpdateObserver ::
  "ComponentViewCtrl \<Rightarrow> error option \<times> ComponentViewCtrl \<times> cv_effect list" where
  "registerPackageUpdateObserver st =
     (case application st of
        None \<Rightarrow> (Some TypeError, st, [])
      | Some a \<Rightarrow> (None, st\<lparr>unregisterDesktopObserver := True\<rparr>, [RegisterUpdateObserver]))"

text \<open>
  \<open>$onChanges\<close>, in three steps: the observers, registered once; the old component
  deregistered; the new one registered, with \<open>reloadStatus()\<close> waiting for the manager.
\<close>

definition onChanges_observers ::
  "cv_env \<Rightarrow> ComponentViewCtrl \<Rightarrow> error option \<times> ComponentViewCtrl \<times> cv_effect list" where
  "onChanges_observers env st =
     (if \<not> didRegisterObservers st then
        (case registerComponentHandlers env (st\<lparr>didRegisterObservers := True\<rparr>) of
           (Some e, st1, fx1) \<Rightarrow> (Some e, st1, fx1)
         | (None, st1, fx1) \<Rightarrow>
             (case registerPackageUpdateObserver st1 of
                (e, st2, fx2) \<Rightarrow> (e, st2, fx1 @ fx2)))
      else (None, st, []))"

definition onChanges ::
  "cv_env \<Rightarrow> ComponentViewCtrl \<Rightarrow> error option \<times> ComponentViewCtrl \<times> cv_effect list" where
  "onChanges env st =
     (case onChanges_observers env st of
        (Some e, st1, fx1) \<Rightarrow> (Some e, st1, fx1)
      | (None, st1, fx1) \<Rightarrow>
          (let newComponent = component st1;
               oldComponent = lastComponentValue st1;
               st2 = st1\<lparr>lastComponentValue := newComponent\<rparr>;
               dereg = (oldComponent \<noteq> None \<and> oldComponent \<noteq> newComponent);
               reg = (newComponent \<noteq> None \<and> newComponent \<noteq> oldComponent)
           in if dereg \<and> \<not> manager st2 then (Some TypeError, st2, fx1)
              else
                (let fx2 = fx1 @ (case oldComponent of
                                    None \<Rightarrow> []
                                  | Some c \<Rightarrow> if dereg then [DeregisterComponent c] else [])
                 in if reg \<and> \<not> manager st2 then (Some TypeError, st2, fx2)
                    else
                      (case newComponent of
                         None \<Rightarrow> (None, st2, fx2)
                       | Some c \<Rightarrow>
                           if reg
                           then (None, st2\<lparr>awaiting := awaiting st2 @ [AfterRegisterComponent]\<rparr>,
                                 fx2 @ [RegisterComponent c])
                           else (None, st2, fx2)))))"

text \<open>The callbacks given to the component manager and to the desktop service.\<close>

definition cv_activationHandler ::
  "cv_env \<Rightarrow> cref \<Rightarrow> ComponentViewCtrl \<Rightarrow> ComponentViewCtrl" where
  "cv_activationHandler env c st =
     (if component st \<noteq> Some c then st
      else (let (h, ts) = timeout (cv_now env) HandleActivationCb (cv_timers st)
            in st\<lparr>cv_timers := ts\<rparr>))"

definition cv_actionHandler ::
  "cref \<Rightarrow> string \<Rightarrow> ComponentViewCtrl \<Rightarrow> error option \<times> ComponentViewCtrl \<times> cv_effect list" where
  "cv_actionHandler c action st =
     (if action = ''set-size'' then
        (if \<not> manager st then (Some TypeError, st, [])
         else (None, st, [HandleSetSizeEvent c]))
      else (None, st, []))"

definition updateObserver ::
  "cv_env \<Rightarrow> cref \<Rightarrow> ComponentViewCtrl \<Rightarrow> ComponentViewCtrl \<times> cv_effect list" where
  "updateObserver env c st =
     (if component st = Some c \<and> active (cv_comps env c) then reloadComponent st
      else (st, []))"

text \<open>
  The events the controller lives through. Each runs one handler to its end (or to its
  first \<open>await\<close>); an exception that leaves a handler is recorded as \<open>Raised\<close>. A listener,
  observer or handler that is not registered is not called; a timer runs only when it
  is queued and due; a promise resolves only when the controller waits for it.
\<close>

datatype cv_event =
    Changes "cref option"
  | ExtReloadComplete
  | PackageUpdate cref
  | Activation cref
  | Action cref string
  | VisibilityChange
  | IframeLoad iframe
  | TimerFires nat
  | Resolved nat
  | Destroy

definition raised :: "error option \<times> ComponentViewCtrl \<times> cv_effect list
                      \<Rightarrow> ComponentViewCtrl \<times> cv_effect list" where
  "raised r = (case r of (None, st, fx) \<Rightarrow> (st, fx) | (Some e, st, fx) \<Rightarrow> (st, fx @ [Raised e]))"

definition cv_run_callback ::
  "cv_env \<Rightarrow> cv_callback \<Rightarrow> ComponentViewCtrl \<Rightarrow> ComponentViewCtrl \<times> cv_effect list" where
  "cv_run_callback env cb st =
     (case cb of
        HandleActivationCb \<Rightarrow> raised (handleActivation env st)
      | HandleIframeLoadTimeoutCb \<Rightarrow> handleIframeLoadTimeout st
      | LoadedCb desktopError \<Rightarrow> handleIframeLoad_settled desktopError st
      | ReloadingDoneCb \<Rightarrow> (st\<lparr>reloading := False\<rparr>, []))"

definition cv_resume ::
  "cv_env \<Rightarrow> cv_continuation \<Rightarrow> ComponentViewCtrl \<Rightarrow> ComponentViewCtrl \<times> cv_effect list" where
  "cv_resume env k st =
     (case k of
        AfterRegisterComponent \<Rightarrow>
          (case reloadStatus env True st of
             (None, st1, fx) \<Rightarrow> (st1, fx) | (Some e, st1, fx) \<Rightarrow> (st1, fx @ [Rejected e]))
      | AfterReloadComponent \<Rightarrow>
          (case reloadStatus env True st of
             (None, st1, fx) \<Rightarrow> (st1, fx) | (Some e, st1, fx) \<Rightarrow> (st1, fx @ [Rejected e]))
      | AfterRegisterComponentWindow desktopError \<Rightarrow>
          (handleIframeLoad_resume env desktopError st, []))"

definition cv_step ::
  "cv_env \<Rightarrow> cv_event \<Rightarrow> ComponentViewCtrl \<Rightarrow> ComponentViewCtrl \<times> cv_effect list" where
  "cv_step env ev st =
     (case ev of
        Changes c \<Rightarrow> raised (onChanges env (st\<lparr>component := c\<rparr>))
      | ExtReloadComplete \<Rightarrow>
          (if cleanUpOn st then raised (reloadStatus env False st) else (st, []))
      | PackageUpdate c \<Rightarrow>
          (if unregisterDesktopObserver st then updateObserver env c st else (st, []))
      | Activation c \<Rightarrow>
          (if unregisterComponentHandler st then (cv_activationHandler env c st, [])
           else (st, []))
      | Action c a \<Rightarrow>
          (if unregisterComponentHandler st then raised (cv_actionHandler c a st) else (st, []))
      | VisibilityChange \<Rightarrow>
          (if visibilityListener st then onVisibilityChange env st else (st, []))
      | IframeLoad iframe \<Rightarrow>
          (if iframe_onload st then handleIframeLoad env iframe st else (st, []))
      | TimerFires h \<Rightarrow>
          (case due_timer (cv_now env) h (cv_timers st) of
             None \<Rightarrow> (st, [])
           | Some t \<Rightarrow>
               cv_run_callback env (callback t)
                 (st\<lparr>cv_timers := timeout_cancel h (cv_timers st)\<rparr>))
      | Resolved i \<Rightarrow>
          (if i < length (awaiting st)
           then cv_resume env (awaiting st ! i)
                  (st\<lparr>awaiting := take i (awaiting st) @ drop (Suc i) (awaiting st)\<rparr>)
           else (st, []))
      | Destroy \<Rightarrow> raised (onDestroy st))"

text \<open>A run of events, each with the environment it meets; the calls made are collected.\<close>

fun cv_run :: "(cv_env \<times> cv_event) list \<Rightarrow> ComponentViewCtrl \<Rightarrow> ComponentViewCtrl \<times> cv_effect list" where
  "cv_run [] st = (st, [])"
| "cv_run ((env, ev) # evs) st =
     (case cv_step env ev st of
        (st1, fx1) \<Rightarrow> (case cv_run evs st1 of (st2, fx2) \<Rightarrow> (st2, fx1 @ fx2)))"

section \<open>Concrete inputs\<close>

text \<open>
  An editor showing a saved note in a hosted editor (component 1, the default editor),
  with ``All changes saved'' on display since time 1000; the clock reads 1100.
  Component 2 is an editor explicitly enabled for the note.
\<close>

definition note0 :: SNNote where
  "note0 = \<lparr>uuid = ''n1'', deleted = False, dirty = False, title = Some ''Title'',
            note_text = Some ''old text'', preview_plain = None, preview_html = Some ''<p>'',
            trashed = False, pinned = False, locked = False, archived = False,
            hidePreview = False, lastSyncBegan = None, lastSyncEnd = None\<rparr>"

definition comps0 :: "cref \<Rightarrow> SNComponent" where
  "comps0 c = \<lparr>area = ''editor-editor'', active = True, offlineOnly = False,
               local_url = None, hasValidHostedUrl = True, valid_until = None,
               isExplicitlyEnabledForItem = (\<lambda>n. c = 2), isDefaultEditor = (c = 1),
               isEditor = True\<rparr>"

definition ed_env_at :: "int \<Rightarrow> ed_env" where
  "ed_env_at t = \<lparr>ed_now = t, documentHidden = False, noAccount = False,
                  STRING_ELLIPSES = ''...'', comps = comps0, stackComponents = []\<rparr>"

definition editor0 :: EditorCtrl where
  "editor0 =
     \<lparr>state_note = Some note0, saveError = False, syncTakingTooLong = False,
      selectedEditor = Some 1, tagsComponent = None, componentStack = [],
      noteStatus = Some \<lparr>message = Some ''All changes saved'', desc = None, date = Some 1000\<rparr>,
      editorValues_title = Some ''Title'', editorValues_text = Some ''new text'',
      saveTimeout = None, statusTimeout = None,
      removeAltKeyObserver = True, removeTrashKeyObserver = True,
      removeDeleteKeyObserver = True, removeTabObserver = False,
      unregisterComponent = True,
      items = [''n1'' \<mapsto> note0],
      ed_timers = \<lparr>nextId = 0, pending = []\<rparr>\<rparr>"

text \<open>
  A component view on a web (not desktop) host, bound to component 1, which has a valid
  hosted url and an iframe whose origin cannot be read.
\<close>

definition cv_env_at :: "int \<Rightarrow> cv_env" where
  "cv_env_at t = \<lparr>cv_now = t, isDesktopApplication = False, visibilityHidden = False,
                  cv_comps = comps0,
                  iframeForComponent = (\<lambda>c. Some (Iframe OriginThrows)),
                  lockReadonly = (\<lambda>c. False)\<rparr>"

definition view0 :: ComponentViewCtrl where
  "view0 = new_ComponentViewCtrl None False False (Some (Application True))"

text \<open>
  The view is bound to component 1 and validated; the component is activated and its
  load times out; the reload that follows times out as well.
\<close>

definition two_timeouts :: "(cv_env \<times> cv_event) list" where
  "two_timeouts =
     [(cv_env_at 0, Changes (Some 1)),
      (cv_env_at 1, Resolved 0),
      (cv_env_at 2, Activation 1),
      (cv_env_at 3, TimerFires 1),
      (cv_env_at 4003, TimerFires 2),
      (cv_env_at 4010, Resolved 0),
      (cv_env_at 4011, Activation 1),
      (cv_env_at 4012, TimerFires 4),
      (cv_env_at 8012, TimerFires 5)]"

text \<open>Then the iframe loads after all, and the load completes.\<close>

definition late_load :: "(cv_env \<times> cv_event) list" where
  "late_load =
     [(cv_env_at 9000, IframeLoad (Iframe OriginThrows)),
      (cv_env_at 9001, Resolved 0),
      (cv_env_at 9008, TimerFires 6)]"

text \<open>A view is bound, activated, and destroyed while its component is loading.\<close>

definition destroyed_while_loading :: "(cv_env \<times> cv_event) list" where
  "destroyed_while_loading =
     [(cv_env_at 0, Changes (Some 1)),
      (cv_env_at 1, Resolved 0),
      (cv_env_at 2, Activation 1),
      (cv_env_at 3, TimerFires 1),
      (cv_env_at 100, Destroy)]"

text \<open>
  Three edits, each within the debounce window of the one before; the status timer of
  each edit runs before the next edit, and a failed sync of another note is reported in
  between.
\<close>

definition three_edits_rest :: "(ed_env \<times> ed_event) list" where
  "three_edits_rest =
     [(ed_env_at 1100, EdTimerFires 0),
      (ed_env_at 1200, SaveNote False True False None),
      (ed_env_at 1201, EdTimerFires 2),
      (ed_env_at 1250, AppEvent FailedSync),
      (ed_env_at 1300, SaveNote False True True None),
      (ed_env_at 1301, EdTimerFires 4)]"

definition three_edits :: "(ed_env \<times> ed_event) list" where
  "three_edits = (ed_env_at 1100, SaveNote False True False None) # three_edits_rest"

section \<open>Helper facts\<close>

lemma setStatus_fields:
  "state_note (setStatus env s w st) = state_note st"
  "items (setStatus env s w st) = items st"
  "editorValues_text (setStatus env s w st) = editorValues_text st"
  "editorValues_title (setStatus env s w st) = editorValues_title st"
  "saveTimeout (setStatus env s w st) = saveTimeout st"
  "selectedEditor (setStatus env s w st) = selectedEditor st"
  "tagsComponent (setStatus env s w st) = tagsComponent st"
  "componentStack (setStatus env s w st) = componentStack st"
  by (simp_all add: setStatus_def Let_def split: prod.splits)

lemma find_snoc_fresh:
  "\<forall>x\<in>set xs. \<not> P x \<Longrightarrow> find P (xs @ [t]) = (if P t then Some t else None)"
  by (induction xs) auto

lemma due_timer_new:
  assumes "list_all (\<lambda>t. tid t < nextId ts) (pending ts)"
  shows "due_timer T (nextId ts) (snd (timeout d cb (cancel_if_set h ts)))
           = (if d \<le> T then Some (Timer (nextId ts) d cb) else None)"
proof -
  have "\<forall>x\<in>set (pending (cancel_if_set h ts)). \<not> (tid x = nextId ts \<and> due x \<le> T)"
    using assms
    by (auto simp: cancel_if_set_def timeout_cancel_def list_all_iff split: option.splits)
  moreover have "nextId (cancel_if_set h ts) = nextId ts"
    by (simp add: cancel_if_set_def timeout_cancel_def split: option.splits)
  ultimately show ?thesis
    by (simp add: due_timer_def timeout_def find_snoc_fresh)
qed

lemma setStatus_fire:
  assumes "noteStatus st = Some cur" and "date cur = Some d"
    and "list_all (\<lambda>t. tid t < nextId (ed_timers st)) (pending (ed_timers st))"
  shows "statusTimeout (setStatus env status wait st) = Some (nextId (ed_timers st))"
    and "noteStatus (fst (ed_fire env' (nextId (ed_timers st)) (setStatus env status wait st)))
          = (if (if wait then max (ed_now env) (d + MINIMUM_STATUS_DURATION) else ed_now env)
                  \<le> ed_now env'
             then Some (status\<lparr>date := Some (ed_now env')\<rparr>) else Some cur)"
proof -
  let ?w = "if \<not> wait \<or> MINIMUM_STATUS_DURATION - (ed_now env - d) < 0 then 0
            else MINIMUM_STATUS_DURATION - (ed_now env - d)"
  let ?ts = "snd (timeout (ed_now env + ?w) (StatusCb status)
                    (cancel_if_set (statusTimeout st) (ed_timers st)))"
  have nid: "nextId (cancel_if_set h (ed_timers st)) = nextId (ed_timers st)" for h
    by (simp add: cancel_if_set_def timeout_cancel_def split: option.splits)
  have s: "setStatus env status wait st
            = st\<lparr>statusTimeout := Some (nextId (ed_timers st)), ed_timers := ?ts\<rparr>"
    using assms(1,2) by (simp add: setStatus_def Let_def timeout_def nid split: prod.splits)
  show "statusTimeout (setStatus env status wait st) = Some (nextId (ed_timers st))"
    by (simp add: s)
  have w: "ed_now env + ?w = (if wait then max (ed_now env) (d + MINIMUM_STATUS_DURATION) else ed_now env)"
    by (auto simp: max_def)
  show "noteStatus (fst (ed_fire env' (nextId (ed_timers st)) (setStatus env status wait st)))
          = (if (if wait then max (ed_now env) (d + MINIMUM_STATUS_DURATION) else ed_now env)
                  \<le> ed_now env'
             then Some (status\<lparr>date := Some (ed_now env')\<rparr>) else Some cur)"
    unfolding s w [symmetric]
    using due_timer_new [OF assms(3), of "ed_now env'" "ed_now env + ?w" "StatusCb status" "statusTimeout st"]
    by (simp add: ed_fire_def ed_run_callback_def assms(1))
qed

lemma reloadStatus_returns:
  "component st = Some c \<Longrightarrow> manager st \<Longrightarrow> fst (reloadStatus env d st) = None"
  by (auto simp: reloadStatus_def Let_def manager_def split: if_splits prod.splits option.splits)












lemma same_tid_at_most_one:
  "distinct (map tid xs) \<Longrightarrow> \<forall>t\<in>set xs. P t \<longrightarrow> tid t = h \<Longrightarrow> length (filter P xs) \<le> 1"
proof (induction xs)
  case Nil
  then show ?case by simp
next
  case (Cons a xs)
  show ?case
  proof (cases "P a")
    case True
    have "filter P xs = []"
    proof (rule ccontr)
      assume "filter P xs \<noteq> []"
      then obtain t where t: "t \<in> set xs" "P t"
        by (metis filter_False)
      with Cons.prems(2) True have "tid t = tid a" by simp
      with t(1) Cons.prems(1) show False by (auto simp: image_iff)
    qed
    with True show ?thesis by simp
  next
    case False
    with Cons show ?thesis by simp
  qed
qed

lemma queue_ok_at_most_one:
  assumes "queue_ok st"
  shows "length (pending_syncs st) \<le> 1"
proof (cases "saveTimeout st")
  case None
  with assms have "pending_syncs st = []"
    by (cases "pending_syncs st") (auto simp: queue_ok_def)
  then show ?thesis by simp
next
  case (Some h)
  with assms have "\<forall>t\<in>set (pending (ed_timers st)). callback t = SyncCb \<longrightarrow> tid t = h"
    by (auto simp: queue_ok_def pending_syncs_def list_all_iff)
  with assms show ?thesis
    unfolding pending_syncs_def
    by (intro same_tid_at_most_one) (auto simp: queue_ok_def)
qed

lemma queue_ok_setStatus:
  "queue_ok st \<Longrightarrow> queue_ok (setStatus env s w st)"
  by (auto simp: queue_ok_def pending_syncs_def setStatus_def timeout_def cancel_if_set_def
        timeout_cancel_def list_all_iff distinct_map_filter Let_def
        split: option.splits)

lemma pending_syncs_setStatus_subset:
  "set (pending_syncs (setStatus env s w st)) \<subseteq> set (pending_syncs st)"
  by (auto simp: pending_syncs_def setStatus_def timeout_def cancel_if_set_def
        timeout_cancel_def Let_def split: option.splits)

lemma setStatus_other_fields:
  "passes_guards (setStatus env s w st) = passes_guards st"
  "nextId (ed_timers (setStatus env s w st)) = Suc (nextId (ed_timers st))"
  by (auto simp: passes_guards_def setStatus_def timeout_def cancel_if_set_def
        timeout_cancel_def Let_def split: option.splits)


lemma no_sync_after_cancel:
  assumes "list_all (\<lambda>t. sv = Some (tid t)) (filter (\<lambda>t. callback t = SyncCb) (pending ts))"
  shows "filter (\<lambda>t. callback t = SyncCb) (pending (cancel_if_set sv ts)) = []"
proof (cases sv)
  case None
  with assms have "filter (\<lambda>t. callback t = SyncCb) (pending ts) = []"
    by (cases "filter (\<lambda>t. callback t = SyncCb) (pending ts)") auto
  with None show ?thesis by (simp add: cancel_if_set_def)
next
  case (Some h)
  with assms show ?thesis
    by (auto simp: cancel_if_set_def timeout_cancel_def list_all_iff filter_empty_conv)
qed

lemma saveNote_passing:
  assumes "passes_guards st"
  shows "saveNote env b u d cm st =
             (None,
              (showSavingStatus env st)
                \<lparr>items := changeItem (uuid (the (state_note st)))
                            (saveNote_mutate env (showSavingStatus env st)
                               (the (state_note st)) d cm) (items st),
                 saveTimeout := Some (Suc (nextId (ed_timers st))),
                 ed_timers :=
                   snd (timeout (ed_now env + syncDebounce env b) SyncCb
                          (cancel_if_set (saveTimeout st)
                             (ed_timers (showSavingStatus env st))))\<rparr>,
              performFirefoxPinnedTabFix env @ [ChangeItem (uuid (the (state_note st))) u])"
proof -
  from assms obtain n where n: "state_note st = Some n" "\<not> deleted n" "items st (uuid n) \<noteq> None"
    by (auto simp: passes_guards_def split: option.splits)
  have f: "saveTimeout (showSavingStatus env st) = saveTimeout st"
    "items (showSavingStatus env st) = items st"
    by (simp_all add: showSavingStatus_def setStatus_fields)
  have i: "nextId (cancel_if_set h (ed_timers (showSavingStatus env st)))
             = Suc (nextId (ed_timers st))" for h
    by (simp add: showSavingStatus_def setStatus_other_fields cancel_if_set_def
          timeout_cancel_def split: option.splits)
  show ?thesis
    using n by (auto simp: saveNote_def Let_def f i timeout_def syncDebounce_def)
qed

lemma pending_syncs_saveNote:
  assumes "queue_ok st" and "passes_guards st"
  shows "pending_syncs (fst (snd (saveNote env b u d cm st)))
           = [Timer (Suc (nextId (ed_timers st))) (ed_now env + syncDebounce env b) SyncCb]"
proof -
  let ?st1 = "showSavingStatus env st"
  define n where "n = the (state_note st)"
  have r: "fst (snd (saveNote env b u d cm st)) =
          ?st1\<lparr>items := changeItem (uuid n) (saveNote_mutate env ?st1 n d cm) (items st),
               saveTimeout := Some (Suc (nextId (ed_timers st))),
               ed_timers := snd (timeout (ed_now env + syncDebounce env b) SyncCb
                                   (cancel_if_set (saveTimeout st) (ed_timers ?st1)))\<rparr>"
    unfolding n_def by (simp add: saveNote_passing [OF assms(2)])
  have "list_all (\<lambda>t. saveTimeout st = Some (tid t)) (pending_syncs ?st1)"
    using assms(1) pending_syncs_setStatus_subset [of env _ False st]
    by (auto simp: queue_ok_def list_all_iff showSavingStatus_def)
  then have e: "filter (\<lambda>t. callback t = SyncCb)
                  (pending (cancel_if_set (saveTimeout st) (ed_timers ?st1))) = []"
    unfolding pending_syncs_def by (rule no_sync_after_cancel)
  have i: "nextId (cancel_if_set h (ed_timers ?st1)) = Suc (nextId (ed_timers st))" for h
    by (simp add: showSavingStatus_def setStatus_other_fields cancel_if_set_def
          timeout_cancel_def split: option.splits)
  show ?thesis
    unfolding r by (simp add: pending_syncs_def timeout_def e i)
qed

lemma queue_ok_saveNote:
  assumes "queue_ok st"
  shows "queue_ok (fst (snd (saveNote env b u d cm st)))"
proof (cases "passes_guards st")
  case False
  then have "fst (snd (saveNote env b u d cm st)) = st"
    by (auto simp: saveNote_def passes_guards_def Let_def split: option.splits)
  with assms show ?thesis by simp
next
  case True
  let ?st1 = "showSavingStatus env st"
  have q1: "queue_ok ?st1"
    using assms by (simp add: showSavingStatus_def queue_ok_setStatus)
  define n where "n = the (state_note st)"
  have r: "fst (snd (saveNote env b u d cm st)) =
          ?st1\<lparr>items := changeItem (uuid n) (saveNote_mutate env ?st1 n d cm) (items st),
               saveTimeout := Some (Suc (nextId (ed_timers st))),
               ed_timers := snd (timeout (ed_now env + syncDebounce env b) SyncCb
                                   (cancel_if_set (saveTimeout st) (ed_timers ?st1)))\<rparr>"
    unfolding n_def by (simp add: saveNote_passing [OF True])
  have i: "nextId (cancel_if_set h (ed_timers ?st1)) = Suc (nextId (ed_timers st))" for h
    by (simp add: showSavingStatus_def setStatus_other_fields cancel_if_set_def
          timeout_cancel_def split: option.splits)
  have ps: "pending_syncs (fst (snd (saveNote env b u d cm st)))
           = [Timer (Suc (nextId (ed_timers st))) (ed_now env + syncDebounce env b) SyncCb]"
    using assms True by (rule pending_syncs_saveNote)
  have sub: "set (pending (cancel_if_set h (ed_timers ?st1))) \<subseteq> set (pending (ed_timers ?st1))" for h
    by (auto simp: cancel_if_set_def timeout_cancel_def split: option.splits)
  have d: "distinct (map tid (pending (cancel_if_set h (ed_timers ?st1))))" for h
    using q1 by (auto simp: queue_ok_def cancel_if_set_def timeout_cancel_def distinct_map_filter
        split: option.splits)
  have lt: "\<forall>t\<in>set (pending (ed_timers ?st1)). tid t < Suc (nextId (ed_timers st))"
    using q1 by (simp add: queue_ok_def list_all_iff showSavingStatus_def setStatus_other_fields)
  have lt2: "\<forall>t\<in>set (pending (cancel_if_set (saveTimeout st) (ed_timers ?st1))).
               tid t < Suc (nextId (ed_timers st))"
    using sub [of "saveTimeout st"] lt by blast
  show ?thesis
    unfolding queue_ok_def ps
    using d [of "saveTimeout st"] lt2
    by (fastforce simp: r timeout_def i list_all_iff less_Suc_eq)
qed

lemma passes_guards_saveNote:
  assumes "passes_guards st"
  shows "passes_guards (fst (snd (saveNote env b u d cm st)))"
proof -
  from assms show ?thesis
    by (auto simp: saveNote_passing [OF assms] passes_guards_def showSavingStatus_def
          setStatus_fields changeItem_def split: option.splits)
qed


lemma queue_ok_cong:
  "ed_timers st' = ed_timers st \<Longrightarrow> saveTimeout st' = saveTimeout st
   \<Longrightarrow> queue_ok st' = queue_ok st"
  by (simp add: queue_ok_def pending_syncs_def)

lemma queue_ok_ed_fire:
  assumes "queue_ok st"
  shows "queue_ok (fst (ed_fire env h st))"
proof (cases "due_timer (ed_now env) h (ed_timers st)")
  case None
  with assms show ?thesis by (simp add: ed_fire_def)
next
  case (Some t)
  have c: "queue_ok (st\<lparr>ed_timers := timeout_cancel h (ed_timers st)\<rparr>)"
    using assms
    by (auto simp: queue_ok_def pending_syncs_def timeout_cancel_def list_all_iff
          distinct_map_filter)
  show ?thesis
  proof (cases "callback t")
    case SyncCb
    with Some c show ?thesis by (simp add: ed_fire_def ed_run_callback_def)
  next
    case (StatusCb s)
    have "queue_ok (st\<lparr>ed_timers := timeout_cancel h (ed_timers st),
                       noteStatus := Some (s\<lparr>date := Some (ed_now env)\<rparr>)\<rparr>)
            = queue_ok (st\<lparr>ed_timers := timeout_cancel h (ed_timers st)\<rparr>)"
      by (rule queue_ok_cong) simp_all
    with Some StatusCb c show ?thesis by (simp add: ed_fire_def ed_run_callback_def)
  qed
qed

lemma queue_ok_onAppEvent:
  assumes "queue_ok st"
  shows "queue_ok (onAppEvent env a st)"
proof -
  have 1: "queue_ok (st\<lparr>syncTakingTooLong := x\<rparr>)" for x
    using assms queue_ok_cong [of "st\<lparr>syncTakingTooLong := x\<rparr>" st] by simp
  have 2: "queue_ok (showAllChangesSavedStatus env (st\<lparr>syncTakingTooLong := x\<rparr>))" for x
    unfolding showAllChangesSavedStatus_def
    using assms
      queue_ok_cong [of "st\<lparr>syncTakingTooLong := x, saveError := False, syncTakingTooLong := False\<rparr>" st]
    by (intro queue_ok_setStatus) simp
  have 3: "queue_ok (showErrorStatus env e st)" for e
    unfolding showErrorStatus_def Let_def
    using assms queue_ok_cong [of "st\<lparr>saveError := True, syncTakingTooLong := False\<rparr>" st]
    by (intro queue_ok_setStatus) simp
  show ?thesis
    using assms 1 2 3
    by (auto simp: onAppEvent_def Let_def split: option.splits ApplicationEvent.splits)
qed

lemma queue_ok_activationHandler:
  assumes "queue_ok st"
  shows "queue_ok (fst (activationHandler env c st))"
proof -
  have 1: "ed_timers (fst (activationHandler env c st)) = ed_timers st"
    by (simp add: activationHandler_def reloadComponentContext_def
          reloadComponentStackArray_def Let_def split: option.splits)
  have 2: "saveTimeout (fst (activationHandler env c st)) = saveTimeout st"
    by (simp add: activationHandler_def reloadComponentContext_def
          reloadComponentStackArray_def Let_def split: option.splits)
  from assms queue_ok_cong [OF 1 2] show ?thesis by simp
qed

lemma queue_ok_ed_step:
  assumes "queue_ok st"
  shows "queue_ok (fst (ed_step env ev st))"
proof (cases ev)
  case (SaveNote b u d cm)
  have "fst (ed_step env ev st) = fst (snd (saveNote env b u d cm st))"
    by (cases "saveNote env b u d cm st") (auto simp: ed_step_def SaveNote split: option.splits)
  with assms show ?thesis by (simp add: queue_ok_saveNote)
next
  case ShowSavingStatus
  with assms show ?thesis by (simp add: ed_step_def showSavingStatus_def queue_ok_setStatus)
next
  case (AppEvent a)
  with assms show ?thesis by (simp add: ed_step_def queue_ok_onAppEvent)
next
  case (ComponentActivated c)
  with assms show ?thesis by (simp add: ed_step_def queue_ok_activationHandler)
next
  case (EdTimerFires h)
  with assms show ?thesis by (simp add: ed_step_def queue_ok_ed_fire)
qed

lemma queue_ok_ed_run:
  "queue_ok st \<Longrightarrow> queue_ok (fst (ed_run evs st))"
proof (induction evs arbitrary: st)
  case Nil
  then show ?case by simp
next
  case (Cons a evs)
  obtain env ev where a: "a = (env, ev)" by (cases a)
  from Cons.prems have "queue_ok (fst (ed_step env ev st))" by (rule queue_ok_ed_step)
  from Cons.IH [OF this] show ?case
    by (cases "ed_step env ev st") (auto simp: a split: prod.splits)
qed

lemma find_distinct_tid:
  "distinct (map tid xs) \<Longrightarrow> t \<in> set xs \<Longrightarrow> due t \<le> T
   \<Longrightarrow> find (\<lambda>x. tid x = tid t \<and> due x \<le> T) xs = Some t"
  by (induction xs) (auto simp: image_iff)

lemma fire_pending_sync:
  assumes "queue_ok st" and "pending_syncs st = [t]" and "due t \<le> ed_now env"
  shows "snd (ed_fire env (tid t) st) = [Sync]"
    and "pending_syncs (fst (ed_fire env (tid t) st)) = []"
proof -
  from assms(2) have "t \<in> set (filter (\<lambda>x. callback x = SyncCb) (pending (ed_timers st)))"
    by (simp add: pending_syncs_def)
  then have m: "t \<in> set (pending (ed_timers st))" "callback t = SyncCb"
    by simp_all
  from assms(1) have d: "distinct (map tid (pending (ed_timers st)))"
    by (simp add: queue_ok_def)
  have f: "due_timer (ed_now env) (tid t) (ed_timers st) = Some t"
    unfolding due_timer_def using d m(1) assms(3) by (rule find_distinct_tid)
  show "snd (ed_fire env (tid t) st) = [Sync]"
    by (simp add: ed_fire_def f m(2) ed_run_callback_def)
  have "filter (\<lambda>x. callback x = SyncCb) (filter (\<lambda>x. tid x \<noteq> tid t) (pending (ed_timers st)))
          = filter (\<lambda>x. tid x \<noteq> tid t) (pending_syncs st)"
    unfolding pending_syncs_def by (simp add: conj_commute)
  then show "pending_syncs (fst (ed_fire env (tid t) st)) = []"
    by (simp add: ed_fire_def f m(2) ed_run_callback_def pending_syncs_def timeout_cancel_def
          assms(2) [unfolded pending_syncs_def])
qed

lemma windowed_sync_handle:
  assumes "windowed st h dl"
  shows "h < nextId (ed_timers st)" and "Timer h dl SyncCb \<in> set (pending (ed_timers st))"
proof -
  from assms have "Timer h dl SyncCb \<in> set (pending_syncs st)"
    by (simp add: windowed_def)
  then show m: "Timer h dl SyncCb \<in> set (pending (ed_timers st))"
    by (simp add: pending_syncs_def)
  from assms have "list_all (\<lambda>t. tid t < nextId (ed_timers st)) (pending (ed_timers st))"
    by (simp add: windowed_def queue_ok_def)
  with m show "h < nextId (ed_timers st)"
    by (auto simp: list_all_iff)
qed

lemma statusTimeout_setStatus:
  "statusTimeout (setStatus env s w st) = Some (nextId (ed_timers st))"
  by (simp add: setStatus_def timeout_def cancel_if_set_def timeout_cancel_def Let_def
        split: option.splits)

lemma pending_syncs_setStatus_keep:
  assumes "statusTimeout st \<noteq> Some h" and "pending_syncs st = [Timer h dl SyncCb]"
  shows "pending_syncs (setStatus env s w st) = [Timer h dl SyncCb]"
proof -
  have "pending_syncs (setStatus env s w st)
          = filter (\<lambda>t. callback t = SyncCb)
              (pending (cancel_if_set (statusTimeout st) (ed_timers st)))"
    by (simp add: pending_syncs_def setStatus_def timeout_def cancel_if_set_def
          timeout_cancel_def Let_def split: option.splits)
  also have "\<dots> = (case statusTimeout st of
                      None \<Rightarrow> pending_syncs st
                    | Some i \<Rightarrow> filter (\<lambda>t. tid t \<noteq> i) (pending_syncs st))"
    by (auto simp: pending_syncs_def cancel_if_set_def timeout_cancel_def conj_commute
          split: option.splits)
  also have "\<dots> = [Timer h dl SyncCb]"
    using assms by (auto split: option.splits)
  finally show ?thesis .
qed

lemma windowed_setStatus:
  assumes "windowed st h dl"
  shows "windowed (setStatus env s w st) h dl"
proof -
  from windowed_sync_handle(1) [OF assms]
  have "statusTimeout (setStatus env s w st) \<noteq> Some h"
    by (simp add: statusTimeout_setStatus)
  with assms show ?thesis
    by (simp add: windowed_def queue_ok_setStatus setStatus_other_fields(1)
          pending_syncs_setStatus_keep)
qed

lemma windowed_cong:
  assumes "windowed st h dl"
    and "ed_timers st' = ed_timers st" and "saveTimeout st' = saveTimeout st"
    and "statusTimeout st' = statusTimeout st" and "state_note st' = state_note st"
    and "items st' = items st"
  shows "windowed st' h dl"
  using assms queue_ok_cong [OF assms(2,3)]
  by (simp add: windowed_def passes_guards_def pending_syncs_def split: option.splits)

lemma windowed_onAppEvent:
  assumes "windowed st h dl"
  shows "windowed (onAppEvent env a st) h dl"
proof -
  have 1: "windowed (st\<lparr>syncTakingTooLong := x\<rparr>) h dl" for x
    using assms by (rule windowed_cong) simp_all
  have 2: "windowed (showAllChangesSavedStatus env (st\<lparr>syncTakingTooLong := x\<rparr>)) h dl" for x
    unfolding showAllChangesSavedStatus_def
    by (intro windowed_setStatus windowed_cong [OF assms]) simp_all
  have 3: "windowed (showErrorStatus env e st) h dl" for e
    unfolding showErrorStatus_def Let_def
    by (intro windowed_setStatus windowed_cong [OF assms]) simp_all
  show ?thesis
    using assms 1 2 3
    by (auto simp: onAppEvent_def Let_def split: option.splits ApplicationEvent.splits)
qed

lemma windowed_activationHandler:
  assumes "windowed st h dl"
  shows "windowed (fst (activationHandler env c st)) h dl"
    and "snd (activationHandler env c st)
           = (if area (comps env c) = ''editor-stack''
                 \<and> area (comps env c) \<noteq> ''note-tags'' \<and> area (comps env c) \<noteq> ''editor-editor''
              then snd (reloadComponentContext env st) else [])"
proof -
  have 1: "ed_timers (fst (activationHandler env c st)) = ed_timers st"
    by (simp add: activationHandler_def reloadComponentContext_def
          reloadComponentStackArray_def Let_def split: option.splits)
  have 2: "saveTimeout (fst (activationHandler env c st)) = saveTimeout st"
    by (simp add: activationHandler_def reloadComponentContext_def
          reloadComponentStackArray_def Let_def split: option.splits)
  have 3: "statusTimeout (fst (activationHandler env c st)) = statusTimeout st"
    by (simp add: activationHandler_def reloadComponentContext_def
          reloadComponentStackArray_def Let_def split: option.splits)
  have 4: "state_note (fst (activationHandler env c st)) = state_note st"
    by (simp add: activationHandler_def reloadComponentContext_def
          reloadComponentStackArray_def Let_def split: option.splits)
  have 5: "items (fst (activationHandler env c st)) = items st"
    by (simp add: activationHandler_def reloadComponentContext_def
          reloadComponentStackArray_def Let_def split: option.splits)
  from assms 1 2 3 4 5 show "windowed (fst (activationHandler env c st)) h dl"
    by (rule windowed_cong)
  show "snd (activationHandler env c st)
           = (if area (comps env c) = ''editor-stack''
                 \<and> area (comps env c) \<noteq> ''note-tags'' \<and> area (comps env c) \<noteq> ''editor-editor''
              then snd (reloadComponentContext env st) else [])"
    by (simp add: activationHandler_def Let_def split: option.splits)
qed

lemma no_sync_reloadComponentContext:
  "Sync \<notin> set (snd (reloadComponentContext env st))"
  by (auto simp: reloadComponentContext_def Let_def split: option.splits if_splits)

lemma same_tid_same_timer:
  "distinct (map tid xs) \<Longrightarrow> a \<in> set xs \<Longrightarrow> b \<in> set xs \<Longrightarrow> tid a = tid b \<Longrightarrow> a = b"
  by (induction xs) (auto simp: image_iff)

lemma windowed_ed_fire:
  assumes "windowed st h dl" and "ed_now env < dl"
  shows "windowed (fst (ed_fire env i st)) h dl" and "snd (ed_fire env i st) = []"
proof -
  let ?s = "Timer h dl SyncCb"
  have m: "?s \<in> set (pending (ed_timers st))" by (rule windowed_sync_handle(2) [OF assms(1)])
  from assms(1) have d: "distinct (map tid (pending (ed_timers st)))"
    by (simp add: windowed_def queue_ok_def)
  have both: "windowed (fst (ed_fire env i st)) h dl \<and> snd (ed_fire env i st) = []"
  proof (cases "due_timer (ed_now env) i (ed_timers st)")
    case None
    with assms(1) show ?thesis by (simp add: ed_fire_def)
  next
    case (Some t)
    then have t: "t \<in> set (pending (ed_timers st))" "tid t = i" "due t \<le> ed_now env"
      by (auto simp: due_timer_def find_Some_iff in_set_conv_nth)
    have ne: "t \<noteq> ?s" using t(3) assms(2) by auto
    with same_tid_same_timer [OF d t(1) m] t(2) have ih: "i \<noteq> h" by auto
    have "callback t \<noteq> SyncCb"
    proof
      assume "callback t = SyncCb"
      with t(1) have "t \<in> set (pending_syncs st)" by (simp add: pending_syncs_def)
      with assms(1) ne show False by (simp add: windowed_def)
    qed
    then obtain s where cb: "callback t = StatusCb s" by (cases "callback t") auto
    let ?st1 = "st\<lparr>ed_timers := timeout_cancel i (ed_timers st)\<rparr>"
    have r: "ed_fire env i st = (?st1\<lparr>noteStatus := Some (s\<lparr>date := Some (ed_now env)\<rparr>)\<rparr>, [])"
      by (simp add: ed_fire_def Some cb ed_run_callback_def)
    have q: "queue_ok (fst (ed_fire env i st))"
      using assms(1) by (intro queue_ok_ed_fire) (simp add: windowed_def)
    have p: "pending_syncs (fst (ed_fire env i st)) = filter (\<lambda>x. tid x \<noteq> i) (pending_syncs st)"
      by (simp add: r pending_syncs_def timeout_cancel_def conj_commute)
    from assms(1) ih have p': "pending_syncs (fst (ed_fire env i st)) = [?s]"
      by (simp add: p windowed_def)
    from assms(1) have g: "passes_guards (fst (ed_fire env i st))"
      by (simp add: r windowed_def passes_guards_def split: option.splits)
    from assms(1) have "statusTimeout (fst (ed_fire env i st)) \<noteq> Some h"
      by (simp add: r windowed_def)
    with q p' g show ?thesis by (simp add: windowed_def r)
  qed
  from both show "windowed (fst (ed_fire env i st)) h dl" and "snd (ed_fire env i st) = []"
    by simp_all
qed

lemma windowed_saveNote:
  assumes "queue_ok st" and "passes_guards st"
  shows "windowed (fst (snd (saveNote env b u d cm st))) (Suc (nextId (ed_timers st)))
           (ed_now env + syncDebounce env b)"
    and "Sync \<notin> set (snd (snd (saveNote env b u d cm st)))"
proof -
  have s: "statusTimeout (fst (snd (saveNote env b u d cm st))) = Some (nextId (ed_timers st))"
    by (simp add: saveNote_passing [OF assms(2)] showSavingStatus_def statusTimeout_setStatus)
  from assms show "windowed (fst (snd (saveNote env b u d cm st))) (Suc (nextId (ed_timers st)))
           (ed_now env + syncDebounce env b)"
    unfolding windowed_def
    by (simp add: queue_ok_saveNote passes_guards_saveNote pending_syncs_saveNote s)
  show "Sync \<notin> set (snd (snd (saveNote env b u d cm st)))"
    by (simp add: saveNote_passing [OF assms(2)] performFirefoxPinnedTabFix_def)
qed

lemma windowed_ed_step:
  assumes "windowed st h dl" and "ed_now env < dl"
  shows "\<exists>h'. windowed (fst (ed_step env ev st)) h' (next_due env ev dl)"
    and "Sync \<notin> set (snd (ed_step env ev st))"
proof -
  from assms(1) have q: "queue_ok st" and g: "passes_guards st"
    by (simp_all add: windowed_def)
  show "\<exists>h'. windowed (fst (ed_step env ev st)) h' (next_due env ev dl)"
  proof (cases ev)
    case (SaveNote b u d cm)
    have "fst (ed_step env ev st) = fst (snd (saveNote env b u d cm st))"
      by (simp add: ed_step_def SaveNote saveNote_passing [OF g])
    with windowed_saveNote(1) [OF q g, of env b u d cm] show ?thesis
      by (auto simp: next_due_def SaveNote)
  next
    case ShowSavingStatus
    with windowed_setStatus [OF assms(1)] show ?thesis
      by (auto simp: ed_step_def showSavingStatus_def next_due_def)
  next
    case (AppEvent a)
    with windowed_onAppEvent [OF assms(1)] show ?thesis
      by (auto simp: ed_step_def next_due_def)
  next
    case (ComponentActivated c)
    with windowed_activationHandler(1) [OF assms(1)] show ?thesis
      by (auto simp: ed_step_def next_due_def)
  next
    case (EdTimerFires i)
    with windowed_ed_fire(1) [OF assms] show ?thesis
      by (auto simp: ed_step_def next_due_def)
  qed
  show "Sync \<notin> set (snd (ed_step env ev st))"
  proof (cases ev)
    case (SaveNote b u d cm)
    have "snd (ed_step env ev st) = snd (snd (saveNote env b u d cm st))"
      by (simp add: ed_step_def SaveNote saveNote_passing [OF g])
    with windowed_saveNote(2) [OF q g, of env b u d cm] show ?thesis by simp
  next
    case ShowSavingStatus
    then show ?thesis by (simp add: ed_step_def)
  next
    case (AppEvent a)
    then show ?thesis by (simp add: ed_step_def)
  next
    case (ComponentActivated c)
    with windowed_activationHandler(2) [OF assms(1), of env c]
      no_sync_reloadComponentContext [of env st]
    show ?thesis by (simp add: ed_step_def)
  next
    case (EdTimerFires i)
    with windowed_ed_fire(2) [OF assms] show ?thesis by (simp add: ed_step_def)
  qed
qed

lemma windowed_ed_run:
  assumes "windowed st h dl" and "in_window dl evs"
  shows "(\<exists>h'. windowed (fst (ed_run evs st)) h' (window_end dl evs))
         \<and> Sync \<notin> set (snd (ed_run evs st))"
  using assms
proof (induction evs arbitrary: st h dl)
  case Nil
  then show ?case by auto
next
  case (Cons a evs)
  obtain env ev where a: "a = (env, ev)" by (cases a)
  from Cons.prems(2) have n: "ed_now env < dl" and w: "in_window (next_due env ev dl) evs"
    by (simp_all add: a)
  from windowed_ed_step [OF Cons.prems(1) n, of ev] obtain h' where
    s: "windowed (fst (ed_step env ev st)) h' (next_due env ev dl)"
    and e: "Sync \<notin> set (snd (ed_step env ev st))"
    by blast
  from Cons.IH [OF s w] e show ?case
    by (cases "ed_step env ev st"; cases "ed_run evs (fst (ed_step env ev st))")
       (auto simp: a)
qed

lemma ed_run_append:
  "ed_run (xs @ ys) st =
     (fst (ed_run ys (fst (ed_run xs st))), snd (ed_run xs st) @ snd (ed_run ys (fst (ed_run xs st))))"
proof (induction xs arbitrary: st)
  case Nil
  then show ?case by simp
next
  case (Cons a xs)
  obtain env ev where a: "a = (env, ev)" by (cases a)
  show ?case
    by (cases "ed_step env ev st") (simp add: a Cons.IH split: prod.splits)
qed

lemma filter_absent: "x \<notin> set xs \<Longrightarrow> filter (\<lambda>e. e = x) xs = []"
  by (induction xs) auto

lemma pending_syncs_deinit:
  "pending_syncs (fst (snd (deinit st))) = pending_syncs st"
proof -
  have "ed_timers (fst (snd (deinit st))) = ed_timers st"
    by (simp add: deinit_def Let_def)
  then show ?thesis by (simp add: pending_syncs_def)
qed

section \<open>Component view: load timeouts\<close>



section \<open>Component view and editor panel: teardown\<close>

text \<open>
  C2 (as amended). Teardown removes the listeners and clears the references, and cancels
  no timer. \<open>$onDestroy\<close>, when it runs to its end, leaves the timer queue and the
  \<open>loadTimeout\<close> handle as they were; it removes the visibility listener, the scope
  listener, the component handler and the desktop observer and clears \<open>component\<close>,
  \<open>onLoad\<close>, \<open>application\<close> and \<open>onVisibilityChange\<close>. The editor's \<open>deinit\<close>, when it runs
  to its end, leaves the timer queue as it was; it removes the key observers and the
  component handler and sets \<open>saveTimeout\<close> and \<open>statusTimeout\<close> to \<open>undefined\<close>.
\<close>

theorem teardown_keeps_timers_queued:
  "(onDestroy st = (None, st', fx) \<longrightarrow>
      cv_timers st' = cv_timers st \<and> loadTimeout st' = loadTimeout st
      \<and> \<not> visibilityListener st' \<and> \<not> cleanUpOn st' \<and> \<not> unregisterComponentHandler st'
      \<and> \<not> unregisterDesktopObserver st' \<and> component st' = None \<and> \<not> onLoad st'
      \<and> application st' = None \<and> \<not> onVisibilityChange_bound st')
   \<and> (deinit ed = (None, ed', efx) \<longrightarrow>
      ed_timers ed' = ed_timers ed \<and> saveTimeout ed' = None \<and> statusTimeout ed' = None
      \<and> \<not> removeAltKeyObserver ed' \<and> \<not> removeTrashKeyObserver ed'
      \<and> \<not> removeDeleteKeyObserver ed' \<and> \<not> removeTabObserver ed'
      \<and> \<not> unregisterComponent ed')"
  by (auto simp: onDestroy_def deinit_def Let_def split: if_splits)

theorem teardown_keeps_timers_queued_witness:
  "pending (cv_timers (fst (snd (onDestroy (fst (cv_run (take 4 destroyed_while_loading) view0))))))
     = [Timer 0 501 ReloadingDoneCb, Timer 2 4003 HandleIframeLoadTimeoutCb]
   \<and> pending (ed_timers (fst (snd (deinit
        (fst (snd (saveNote (ed_env_at 1100) False True False None editor0)))))))
     = [Timer 0 1100 (StatusCb \<lparr>message = Some ''Saving...'', desc = None, date = None\<rparr>),
        Timer 1 1450 SyncCb]"
proof -
  let ?s = "fst (cv_run (take 4 destroyed_while_loading) view0)"
  let ?e = "fst (snd (saveNote (ed_env_at 1100) False True False None editor0))"
  have 1: "onDestroy ?s = (None, fst (snd (onDestroy ?s)), snd (snd (onDestroy ?s)))"
    by code_simp
  have 2: "fst (deinit ?e) = None"
    by code_simp
  then have 3: "deinit ?e = (None, fst (snd (deinit ?e)), snd (snd (deinit ?e)))"
    by (metis prod.collapse)
  have 4: "pending (cv_timers ?s) = [Timer 0 501 ReloadingDoneCb, Timer 2 4003 HandleIframeLoadTimeoutCb]"
    by code_simp
  have 5: "pending (ed_timers ?e)
     = [Timer 0 1100 (StatusCb \<lparr>message = Some ''Saving...'', desc = None, date = None\<rparr>),
        Timer 1 1450 SyncCb]"
    by code_simp
  from teardown_keeps_timers_queued
         [of ?s "fst (snd (onDestroy ?s))" "snd (snd (onDestroy ?s))"
             ?e "fst (snd (deinit ?e))" "snd (snd (deinit ?e))"] 1 3 4 5
  show ?thesis by simp
qed

text \<open>
  C2 as stated fails: a view destroyed while its component is loading keeps its load
  timer queued, and when the timer runs at 4003 it clears \<open>loading\<close>, sets \<open>issueLoading\<close>
  and clears \<open>componentValid\<close> on the destroyed instance.
\<close>

theorem load_timer_runs_after_teardown:
  "fst (cv_step (cv_env_at 100) Destroy (fst (cv_run (take 4 destroyed_while_loading) view0)))
     = fst (cv_run destroyed_while_loading view0)
   \<and> pending (cv_timers (fst (cv_run destroyed_while_loading view0)))
       = [Timer 0 501 ReloadingDoneCb, Timer 2 4003 HandleIframeLoadTimeoutCb]
   \<and> loading (fst (cv_run destroyed_while_loading view0))
   \<and> \<not> issueLoading (fst (cv_run destroyed_while_loading view0))
   \<and> componentValid (fst (cv_run destroyed_while_loading view0))
   \<and> \<not> loading (fst (cv_step (cv_env_at 4003) (TimerFires 2)
                       (fst (cv_run destroyed_while_loading view0))))
   \<and> issueLoading (fst (cv_step (cv_env_at 4003) (TimerFires 2)
                       (fst (cv_run destroyed_while_loading view0))))
   \<and> \<not> componentValid (fst (cv_step (cv_env_at 4003) (TimerFires 2)
                       (fst (cv_run destroyed_while_loading view0))))"
  by code_simp

section \<open>Editor panel: the status line\<close>

text \<open>
  C3 (as amended). Let a status with a date \<open>d\<close> be on display, in an editor whose
  queued timers all carry handles given out already. A status set with
  \<open>wait\<close> (the default of \<open>setStatus\<close>, used by \<open>showAllChangesSavedStatus\<close> and
  \<open>showErrorStatus\<close>) replaces it no earlier than \<open>d + 400\<close>: its timer is due at the
  later of the time of the call and \<open>d + 400\<close>. A status set without \<open>wait\<close>, as
  \<open>showSavingStatus\<close> does, replaces it as soon as its timer runs, whatever \<open>d\<close> is.
\<close>

theorem status_minimum_duration_when_waiting:
  assumes "noteStatus st = Some cur" and "date cur = Some d"
    and "list_all (\<lambda>t. tid t < nextId (ed_timers st)) (pending (ed_timers st))"
  shows "(noteStatus (fst (ed_fire env' (nextId (ed_timers st)) (setStatus env status True st)))
            \<noteq> Some cur \<longrightarrow> d + MINIMUM_STATUS_DURATION \<le> ed_now env')
       \<and> (noteStatus (fst (ed_fire env' (nextId (ed_timers st)) (showAllChangesSavedStatus env st)))
            \<noteq> Some cur \<longrightarrow> d + MINIMUM_STATUS_DURATION \<le> ed_now env')
       \<and> (noteStatus (fst (ed_fire env' (nextId (ed_timers st)) (showErrorStatus env err st)))
            \<noteq> Some cur \<longrightarrow> d + MINIMUM_STATUS_DURATION \<le> ed_now env')
       \<and> noteStatus (fst (ed_fire env' (nextId (ed_timers st)) (setStatus env status wait st)))
           = (if (if wait then max (ed_now env) (d + MINIMUM_STATUS_DURATION) else ed_now env)
                   \<le> ed_now env'
              then Some (status\<lparr>date := Some (ed_now env')\<rparr>) else Some cur)
       \<and> noteStatus (fst (ed_fire env' (nextId (ed_timers st)) (showSavingStatus env st)))
           = (if ed_now env \<le> ed_now env'
              then Some \<lparr>message = Some ''Saving...'', desc = None, date = Some (ed_now env')\<rparr>
              else Some cur)"
proof -
  let ?a = "st\<lparr>saveError := False, syncTakingTooLong := False\<rparr>"
  let ?b = "st\<lparr>saveError := True, syncTakingTooLong := False\<rparr>"
  have a: "noteStatus ?a = Some cur" "ed_timers ?a = ed_timers st"
    and b: "noteStatus ?b = Some cur" "ed_timers ?b = ed_timers st"
    using assms(1) by simp_all
  have 1: "noteStatus (fst (ed_fire env' (nextId (ed_timers st)) (setStatus env s True st)))
            \<noteq> Some cur \<longrightarrow> d + MINIMUM_STATUS_DURATION \<le> ed_now env'" for s
    using setStatus_fire(2) [OF assms, of env' env s True] by (auto split: if_splits)
  have 2: "noteStatus (fst (ed_fire env' (nextId (ed_timers st)) (setStatus env s True ?a)))
            \<noteq> Some cur \<longrightarrow> d + MINIMUM_STATUS_DURATION \<le> ed_now env'" for s
    using setStatus_fire(2) [of ?a cur d env' env s True] assms a by (auto split: if_splits)
  have 3: "noteStatus (fst (ed_fire env' (nextId (ed_timers st)) (setStatus env s True ?b)))
            \<noteq> Some cur \<longrightarrow> d + MINIMUM_STATUS_DURATION \<le> ed_now env'" for s
    using setStatus_fire(2) [of ?b cur d env' env s True] assms b by (auto split: if_splits)
  show ?thesis
    using 1 2 3 setStatus_fire(2) [OF assms, of env' env status wait]
      setStatus_fire(2) [OF assms, of env' env "\<lparr>message = Some ''Saving...'', desc = None, date = None\<rparr>" False]
    by (simp add: showAllChangesSavedStatus_def showErrorStatus_def showSavingStatus_def Let_def)
qed

theorem status_minimum_duration_when_waiting_witness:
  "noteStatus (fst (ed_fire (ed_env_at 1399) 0 (showAllChangesSavedStatus (ed_env_at 1100) editor0)))
     = Some \<lparr>message = Some ''All changes saved'', desc = None, date = Some 1000\<rparr>
   \<and> noteStatus (fst (ed_fire (ed_env_at 1400) 0 (showErrorStatus (ed_env_at 1100) None editor0)))
     = Some \<lparr>message = Some ''Sync Unreachable'', desc = Some ''Changes saved offline'',
             date = Some 1400\<rparr>"
proof -
  have h: "noteStatus editor0
             = Some \<lparr>message = Some ''All changes saved'', desc = None, date = Some 1000\<rparr>"
    "date \<lparr>message = Some ''All changes saved'', desc = None, date = Some 1000\<rparr> = Some 1000"
    "list_all (\<lambda>t. tid t < nextId (ed_timers editor0)) (pending (ed_timers editor0))"
    "nextId (ed_timers editor0) = 0"
    by (simp_all add: editor0_def)
  have 1: "noteStatus (fst (ed_fire (ed_env_at 1400) 0 (showErrorStatus (ed_env_at 1100) None editor0)))
     = Some \<lparr>message = Some ''Sync Unreachable'', desc = Some ''Changes saved offline'',
             date = Some 1400\<rparr>"
    by code_simp
  from status_minimum_duration_when_waiting [OF h(1) h(2) h(3), of "ed_env_at 1399" "ed_env_at 1100"]
  have "noteStatus (fst (ed_fire (ed_env_at 1399) 0 (showAllChangesSavedStatus (ed_env_at 1100) editor0)))
     = Some \<lparr>message = Some ''All changes saved'', desc = None, date = Some 1000\<rparr>"
    by (simp add: h(4) ed_env_at_def MINIMUM_STATUS_DURATION_def)
  with 1 show ?thesis by simp
qed

text \<open>
  C3 as stated fails: ``All changes saved'' is on display since 1000; an edit at 1100
  calls \<open>saveNote\<close>, and the status timer it queues shows ``Saving...'' at 1100, after
  100ms.
\<close>

theorem saving_status_replaces_at_once:
  "noteStatus editor0
     = Some \<lparr>message = Some ''All changes saved'', desc = None, date = Some 1000\<rparr>
   \<and> noteStatus (fst (ed_run [(ed_env_at 1100, SaveNote False True False None),
                              (ed_env_at 1100, EdTimerFires 0)] editor0))
     = Some \<lparr>message = Some ''Saving...'', desc = None, date = Some 1100\<rparr>"
  by code_simp

section \<open>Component view: validity\<close>

text \<open>
  C4. For a view with a component and its manager, a validation pass (\<open>reloadStatus\<close>)
  returns, and after it \<open>componentValid\<close> is true exactly
  when the component is not offline-restricted (\<open>offlineOnly\<close> on a host that is not
  desktop) and has a usable url: on a desktop host a local url or a valid hosted url, on
  any other host a valid hosted url. So \<open>offlineOnly\<close> off the desktop makes the component
  invalid whatever its urls are, and a component with neither url is invalid on every
  host.
\<close>

theorem reloadStatus_componentValid:
  assumes "component st = Some c" and "manager st"
  shows "\<exists>st' fx. reloadStatus env doManualReload st = (None, st', fx)
         \<and> componentValid st' =
             (\<not> (offlineOnly (cv_comps env c) \<and> \<not> isDesktopApplication env)
              \<and> (if isDesktopApplication env
                 then truthy (local_url (cv_comps env c)) \<or> hasValidHostedUrl (cv_comps env c)
                 else hasValidHostedUrl (cv_comps env c)))
         \<and> (offlineOnly (cv_comps env c) \<and> \<not> isDesktopApplication env
              \<longrightarrow> \<not> componentValid st')
         \<and> (\<not> truthy (local_url (cv_comps env c)) \<and> \<not> hasValidHostedUrl (cv_comps env c)
              \<longrightarrow> \<not> componentValid st')"
proof -
  from reloadStatus_returns [OF assms, of env doManualReload]
  obtain st' fx where r: "reloadStatus env doManualReload st = (None, st', fx)"
    by (cases "reloadStatus env doManualReload st") auto
  with assms(1) have "componentValid st' =
             (\<not> (offlineOnly (cv_comps env c) \<and> \<not> isDesktopApplication env)
              \<and> (if isDesktopApplication env
                 then truthy (local_url (cv_comps env c)) \<or> hasValidHostedUrl (cv_comps env c)
                 else hasValidHostedUrl (cv_comps env c)))"
    by (auto simp: reloadStatus_def Let_def split: if_splits prod.splits)
  with r show ?thesis by auto
qed

theorem reloadStatus_componentValid_witness:
  "componentValid (fst (snd (reloadStatus (cv_env_at 1) True (view0\<lparr>component := Some 1\<rparr>))))
   \<and> \<not> componentValid (fst (snd (reloadStatus
          ((cv_env_at 1)\<lparr>cv_comps := (\<lambda>c. (comps0 c)\<lparr>offlineOnly := True\<rparr>)\<rparr>) True
          (view0\<lparr>component := Some 1\<rparr>))))"
proof -
  let ?st = "view0\<lparr>component := Some 1\<rparr>"
  let ?env = "(cv_env_at 1)\<lparr>cv_comps := (\<lambda>c. (comps0 c)\<lparr>offlineOnly := True\<rparr>)\<rparr>"
  have c: "component ?st = Some 1" by simp
  have m: "manager ?st" by (simp add: manager_def view0_def new_ComponentViewCtrl_def)
  from reloadStatus_componentValid [OF c m, of "cv_env_at 1" True]
  have 1: "componentValid (fst (snd (reloadStatus (cv_env_at 1) True ?st)))"
    by (auto simp: cv_env_at_def comps0_def)
  from reloadStatus_componentValid [OF c m, of ?env True]
  have 2: "\<not> componentValid (fst (snd (reloadStatus ?env True ?st)))"
    by (auto simp: cv_env_at_def comps0_def)
  from 1 2 show ?thesis by simp
qed

section \<open>Component view: the visibility listener\<close>

text \<open>
  C5 (as amended). The page-visibility listener is removed when the controller is torn
  down (\<open>$onDestroy\<close> running to its end). A load that succeeds does not remove it:
  \<open>handleIframeLoad\<close>, its settle timer and the timer's callback leave the listener as it
  is. After a load without a desktop origin error \<open>issueLoading\<close> is false, so the
  listener, when it is called, does nothing.
\<close>

theorem onDestroy_removes_visibility_listener_load_keeps_it:
  "(onDestroy st = (None, st', fx) \<longrightarrow> \<not> visibilityListener st')
   \<and> visibilityListener (fst (handleIframeLoad env iframe st)) = visibilityListener st
   \<and> visibilityListener (handleIframeLoad_resume env desktopError st) = visibilityListener st
   \<and> visibilityListener (fst (handleIframeLoad_settled desktopError st)) = visibilityListener st
   \<and> onVisibilityChange env (fst (handleIframeLoad_settled False st))
       = (fst (handleIframeLoad_settled False st), [])"
  by (auto simp: onDestroy_def handleIframeLoad_def handleIframeLoad_resume_def
        handleIframeLoad_settled_def onVisibilityChange_def Let_def
        split: if_splits prod.splits option.splits)

theorem onDestroy_removes_visibility_listener_load_keeps_it_witness:
  "visibilityListener (fst (cv_run two_timeouts view0))
   \<and> \<not> visibilityListener (fst (snd (onDestroy (fst (cv_run two_timeouts view0)))))"
proof -
  let ?s = "fst (cv_run two_timeouts view0)"
  have r: "onDestroy ?s = (None, fst (snd (onDestroy ?s)), snd (snd (onDestroy ?s)))"
    by code_simp
  have v: "visibilityListener ?s" by code_simp
  from onDestroy_removes_visibility_listener_load_keeps_it
         [of ?s "fst (snd (onDestroy ?s))" "snd (snd (onDestroy ?s))"] r v
  show ?thesis by blast
qed

text \<open>
  C5 as stated fails: after two timeouts the listener is registered; the iframe then
  loads and the load completes (\<open>loading\<close> and \<open>issueLoading\<close> are false), and the
  listener is still registered.
\<close>

theorem load_success_keeps_visibility_listener:
  "visibilityListener (fst (cv_run two_timeouts view0))
   \<and> \<not> loading (fst (cv_run (two_timeouts @ late_load) view0))
   \<and> \<not> issueLoading (fst (cv_run (two_timeouts @ late_load) view0))
   \<and> visibilityListener (fst (cv_run (two_timeouts @ late_load) view0))"
  by code_simp

section \<open>Editor panel: the debounced sync\<close>

text \<open>
  C6. In a live editor whose timer queue is in order (as it is with an empty queue, and
  stays over every run of events), at most one sync timer is queued at any moment, also
  after \<open>deinit\<close> ends the run. A \<open>saveNote\<close> call that passes the guards leaves exactly
  one: the one it has just queued, due 100ms after the call when the debouncer is
  bypassed or the session has no account, and 350ms after it otherwise; a sync timer
  queued before is cancelled. So take an edit followed by any run of events within the
  debounce window (further edits, status timers running, application events,
  activations, timers that are not due): the run issues no sync and leaves one sync
  timer, due at the end of the window; when that timer runs, the whole run has issued
  exactly one sync and no sync timer is left.
\<close>

theorem saveNote_single_pending_sync:
  assumes "queue_ok st"
  shows "length (pending_syncs (fst (ed_run evs st))) \<le> 1
       \<and> length (pending_syncs (fst (snd (deinit (fst (ed_run evs st)))))) \<le> 1
       \<and> (passes_guards st \<longrightarrow>
            pending_syncs (fst (snd (saveNote env b u d cm st)))
              = [Timer (Suc (nextId (ed_timers st)))
                   (ed_now env + (if b \<or> noAccount env then 100 else 350)) SyncCb])
       \<and> (passes_guards st \<and> in_window (ed_now env + syncDebounce env b) burst \<longrightarrow>
            Sync \<notin> set (snd (ed_run ((env, SaveNote b u d cm) # burst) st))
            \<and> (\<exists>t. pending_syncs (fst (ed_run ((env, SaveNote b u d cm) # burst) st)) = [t]
                   \<and> callback t = SyncCb
                   \<and> due t = window_end (ed_now env + syncDebounce env b) burst
                   \<and> (\<forall>env'. due t \<le> ed_now env' \<longrightarrow>
                          filter (\<lambda>e. e = Sync)
                            (snd (ed_run (((env, SaveNote b u d cm) # burst)
                                            @ [(env', EdTimerFires (tid t))]) st)) = [Sync]
                          \<and> pending_syncs
                              (fst (ed_run (((env, SaveNote b u d cm) # burst)
                                              @ [(env', EdTimerFires (tid t))]) st)) = [])))"
proof (intro conjI impI)
  show "length (pending_syncs (fst (ed_run evs st))) \<le> 1"
    using assms by (intro queue_ok_at_most_one queue_ok_ed_run)
  then show "length (pending_syncs (fst (snd (deinit (fst (ed_run evs st)))))) \<le> 1"
    by (simp add: pending_syncs_deinit)
next
  assume "passes_guards st"
  with assms show "pending_syncs (fst (snd (saveNote env b u d cm st)))
         = [Timer (Suc (nextId (ed_timers st)))
              (ed_now env + (if b \<or> noAccount env then 100 else 350)) SyncCb]"
    by (simp add: pending_syncs_saveNote syncDebounce_def SAVE_TIMEOUT_NO_DEBOUNCE_def
          SAVE_TIMEOUT_DEBOUNCE_def)
next
  let ?run = "(env, SaveNote b u d cm) # burst"
  let ?st1 = "fst (snd (saveNote env b u d cm st))"
  let ?dl = "ed_now env + syncDebounce env b"
  assume a: "passes_guards st \<and> in_window ?dl burst"
  then have g: "passes_guards st" and w: "in_window ?dl burst" by simp_all
  have step: "ed_step env (SaveNote b u d cm) st = (?st1, snd (snd (saveNote env b u d cm st)))"
    by (simp add: ed_step_def saveNote_passing [OF g])
  have run: "ed_run ?run st
               = (fst (ed_run burst ?st1),
                  snd (snd (saveNote env b u d cm st)) @ snd (ed_run burst ?st1))"
    by (simp add: step split: prod.splits)
  from windowed_ed_run [OF windowed_saveNote(1) [OF assms g] w] obtain h where
    wd: "windowed (fst (ed_run burst ?st1)) h (window_end ?dl burst)"
    and ns: "Sync \<notin> set (snd (ed_run burst ?st1))"
    by blast
  from ns windowed_saveNote(2) [OF assms g, of env b u d cm]
  show nosync: "Sync \<notin> set (snd (ed_run ?run st))"
    unfolding run by simp
  let ?t = "Timer h (window_end ?dl burst) SyncCb"
  let ?fin = "fst (ed_run ?run st)"
  from wd have q: "queue_ok ?fin" and p: "pending_syncs ?fin = [?t]"
    unfolding run by (simp_all add: windowed_def)
  have "\<forall>env' :: ed_env. due ?t \<le> ed_now env' \<longrightarrow>
          filter (\<lambda>e. e = Sync) (snd (ed_run (?run @ [(env', EdTimerFires (tid ?t))]) st)) = [Sync]
          \<and> pending_syncs (fst (ed_run (?run @ [(env', EdTimerFires (tid ?t))]) st)) = []"
  proof (intro allI impI)
    fix env' :: ed_env
    assume d: "due ?t \<le> ed_now env'"
    have r: "ed_run [(env', EdTimerFires (tid ?t))] ?fin = ed_fire env' (tid ?t) ?fin"
      by (simp add: ed_step_def split: prod.splits)
    from nosync have f: "filter (\<lambda>e. e = Sync) (snd (ed_run ?run st)) = []"
      by (rule filter_absent)
    from fire_pending_sync [OF q p d] f
    show "filter (\<lambda>e. e = Sync) (snd (ed_run (?run @ [(env', EdTimerFires (tid ?t))]) st)) = [Sync]
          \<and> pending_syncs (fst (ed_run (?run @ [(env', EdTimerFires (tid ?t))]) st)) = []"
      unfolding ed_run_append r by simp
  qed
  with p show "\<exists>t. pending_syncs ?fin = [t] \<and> callback t = SyncCb
                   \<and> due t = window_end ?dl burst
                   \<and> (\<forall>env'. due t \<le> ed_now env' \<longrightarrow>
                          filter (\<lambda>e. e = Sync)
                            (snd (ed_run (?run @ [(env', EdTimerFires (tid t))]) st)) = [Sync]
                          \<and> pending_syncs
                              (fst (ed_run (?run @ [(env', EdTimerFires (tid t))]) st)) = [])"
    by (intro exI [of _ ?t]) simp
qed

theorem saveNote_single_pending_sync_witness:
  "queue_ok editor0 \<and> passes_guards editor0 \<and> in_window 1450 three_edits_rest
   \<and> pending_syncs (fst (ed_run three_edits editor0)) = [Timer 5 1650 SyncCb]
   \<and> length (pending_syncs (fst (ed_run (take 3 three_edits) editor0))) \<le> 1
   \<and> Sync \<notin> set (snd (ed_run three_edits editor0))
   \<and> filter (\<lambda>e. e = Sync)
        (snd (ed_run (three_edits @ [(ed_env_at 1650, EdTimerFires 5)]) editor0)) = [Sync]
   \<and> pending_syncs (fst (ed_run (three_edits @ [(ed_env_at 1650, EdTimerFires 5)]) editor0))
       = []"
proof -
  have q: "queue_ok editor0" by code_simp
  have g: "passes_guards editor0" by code_simp
  have w: "in_window 1450 three_edits_rest" by code_simp
  have e: "ed_now (ed_env_at 1100) + syncDebounce (ed_env_at 1100) False = 1450"
    "ed_now (ed_env_at 1650) = 1650"
    by code_simp+
  have p: "pending_syncs (fst (ed_run three_edits editor0)) = [Timer 5 1650 SyncCb]"
    by code_simp
  note inst = saveNote_single_pending_sync
                [OF q, of "take 3 three_edits" "ed_env_at 1100" False True False None
                   three_edits_rest]
  from inst have 1: "length (pending_syncs (fst (ed_run (take 3 three_edits) editor0))) \<le> 1"
    by blast
  from inst g w e(1) have 2: "Sync \<notin> set (snd (ed_run three_edits editor0))"
    by (simp add: three_edits_def)
  from inst g w e(1) obtain t where
    t: "pending_syncs (fst (ed_run three_edits editor0)) = [t]"
    and f: "\<forall>env'. due t \<le> ed_now env' \<longrightarrow>
              filter (\<lambda>e. e = Sync)
                (snd (ed_run (three_edits @ [(env', EdTimerFires (tid t))]) editor0)) = [Sync]
              \<and> pending_syncs
                  (fst (ed_run (three_edits @ [(env', EdTimerFires (tid t))]) editor0)) = []"
    unfolding three_edits_def by auto
  from t p have "t = Timer 5 1650 SyncCb" by simp
  with f e(2) have 3:
    "filter (\<lambda>e. e = Sync)
        (snd (ed_run (three_edits @ [(ed_env_at 1650, EdTimerFires 5)]) editor0)) = [Sync]
     \<and> pending_syncs (fst (ed_run (three_edits @ [(ed_env_at 1650, EdTimerFires 5)]) editor0))
         = []"
    by auto
  from q g w p 1 2 3 show ?thesis by simp
qed

section \<open>Editor panel: the save guards, previews and component handlers\<close>

text \<open>
  C7. A \<open>saveNote\<close> call on a deleted note, or on a note whose uuid the item store does not
  hold, alerts the user and returns: the controller, the item store and the timer queue
  are what they were, no mutation is applied and no sync timer is queued. (The pinned-tab
  fix that opens every call may still ask the page to reload when the document is hidden.)
\<close>

theorem saveNote_guard_leaves_state:
  assumes "state_note st = Some n" and "deleted n \<or> items st (uuid n) = None"
  shows "saveNote env bypassDebouncer isUserModified dontUpdatePreviews customMutate st =
           (None, st,
            performFirefoxPinnedTabFix env
              @ [Alert (if deleted n then STRING_DELETED_NOTE else STRING_INVALID_NOTE)])"
  using assms by (auto simp: saveNote_def Let_def)

theorem saveNote_guard_leaves_state_witness:
  "saveNote (ed_env_at 1100) False True False None (editor0\<lparr>items := Map.empty\<rparr>) =
     (None, editor0\<lparr>items := Map.empty\<rparr>, [Alert STRING_INVALID_NOTE])"
  using saveNote_guard_leaves_state [of "editor0\<lparr>items := Map.empty\<rparr>" note0 "ed_env_at 1100" False True False None]
  by (simp add: editor0_def note0_def ed_env_at_def performFirefoxPinnedTabFix_def)

text \<open>
  C8. An activation signal for an active editor-area component that is explicitly enabled
  for the current note, while the selected editor is active and not explicitly enabled
  for that note, makes the activated component the selected editor (nothing else
  changes). The selected editor may be the default editor: the explicitly enabled one
  takes its place.
\<close>

theorem activationHandler_explicit_replaces_selected:
  assumes "area (comps env c) = ''editor-editor''" and "active (comps env c)"
    and "state_note st = Some n" and "isExplicitlyEnabledForItem (comps env c) n"
    and "selectedEditor st = Some se" and "active (comps env se)"
    and "\<not> isExplicitlyEnabledForItem (comps env se) n"
  shows "activationHandler env c st = (st\<lparr>selectedEditor := Some c\<rparr>, [])"
  using assms by (simp add: activationHandler_def Let_def)

theorem activationHandler_explicit_replaces_selected_witness:
  "isDefaultEditor (comps (ed_env_at 1100) 1) \<and> selectedEditor editor0 = Some 1
   \<and> selectedEditor (fst (activationHandler (ed_env_at 1100) 2 editor0)) = Some 2"
  using activationHandler_explicit_replaces_selected [of "ed_env_at 1100" 2 editor0 note0 1]
  by (simp add: ed_env_at_def comps0_def editor0_def note0_def)

text \<open>
  C9. A \<open>saveNote\<close> call that passes both guards with \<open>dontUpdatePreviews\<close> false writes to
  the stored note a \<open>preview_plain\<close> made of the first 80 characters of the text of the
  note as the controller held it before the call, followed by the ellipsis exactly when
  that text is longer than 80 characters, and sets \<open>preview_html\<close> to \<open>undefined\<close>. The
  text written by the same call is the editor's new text; the preview is not taken from
  it.
\<close>

theorem saveNote_preview_from_prior_text:
  assumes "state_note st = Some n" and "\<not> deleted n" and "items st (uuid n) = Some m"
    and "saveNote env bypassDebouncer isUserModified False customMutate st = (r, st', fx)"
  shows "\<exists>m'. items st' (uuid n) = Some m'
           \<and> preview_plain m' =
               Some (take NOTE_PREVIEW_CHAR_LIMIT (case note_text n of None \<Rightarrow> [] | Some t \<Rightarrow> t)
                     @ (if length (case note_text n of None \<Rightarrow> [] | Some t \<Rightarrow> t) > NOTE_PREVIEW_CHAR_LIMIT
                        then STRING_ELLIPSES env else []))
           \<and> preview_html m' = None
           \<and> note_text m' = editorValues_text st"
  using assms
  by (auto simp: saveNote_def Let_def showSavingStatus_def setStatus_fields changeItem_def
      saveNote_mutate_def NOTE_PREVIEW_CHAR_LIMIT_def split: prod.splits)

theorem saveNote_preview_from_prior_text_witness:
  "\<exists>m'. items (fst (snd (saveNote (ed_env_at 1100) False True False None editor0))) ''n1''
           = Some m'
        \<and> preview_plain m' = Some ''old text'' \<and> preview_html m' = None
        \<and> note_text m' = Some ''new text''"
proof -
  let ?r = "saveNote (ed_env_at 1100) False True False None editor0"
  have h: "state_note editor0 = Some note0" "\<not> deleted note0"
    "items editor0 (uuid note0) = Some note0"
    by (simp_all add: editor0_def note0_def)
  have r: "?r = (fst ?r, fst (snd ?r), snd (snd ?r))" by simp
  from saveNote_preview_from_prior_text [OF h r]
  show ?thesis
    by (simp add: note0_def editor0_def ed_env_at_def NOTE_PREVIEW_CHAR_LIMIT_def)
qed

text \<open>
  C10. \<open>contextRequestHandler\<close> returns the note of the controller's state when the asking
  component is the selected editor, the tags component or a member of the component
  stack, and \<open>undefined\<close> for every other component.
\<close>

theorem contextRequestHandler_members_only:
  "(selectedEditor st = Some c \<or> tagsComponent st = Some c \<or> c \<in> set (componentStack st)
      \<longrightarrow> contextRequestHandler c st = state_note st)
   \<and> (\<not> (selectedEditor st = Some c \<or> tagsComponent st = Some c \<or> c \<in> set (componentStack st))
      \<longrightarrow> contextRequestHandler c st = None)"
  by (simp add: contextRequestHandler_def)


theorem contextRequestHandler_members_only_witness:
  "contextRequestHandler 1 editor0 = Some note0
   \<and> contextRequestHandler 7 (editor0\<lparr>componentStack := [4, 7]\<rparr>) = Some note0
   \<and> contextRequestHandler 2 editor0 = None"
  using contextRequestHandler_members_only [of editor0 1]
    contextRequestHandler_members_only [of "editor0\<lparr>componentStack := [4, 7]\<rparr>" 7]
    contextRequestHandler_members_only [of editor0 2]
  by (simp add: editor0_def)

end
